theory Spec2Isabelle
  imports Main
begin

section \<open>Data model of \<^verbatim>\<open>src/Graph.ts\<close>\<close>

text \<open>
  Module, ExternalModule and Chunk objects are shared and mutated in place, so they live in
  heaps addressed by references; \<^verbatim>\<open>Module[]\<close> arrays hold references. The records
  below carry the fields that \<^verbatim>\<open>Graph.ts\<close> reads. Code of the repository that
  \<^verbatim>\<open>Graph.ts\<close> only calls (methods of Module, ExternalModule, Chunk, ModuleLoader and
  the helpers under \<^verbatim>\<open>utils/\<close>) enters as the fields of the record \<open>env\<close> further down.
\<close>

type_synonym ref = nat

text \<open>A \<^verbatim>\<open>RollupWarning\<close>: every field but \<open>code\<close> and \<open>message\<close> is optional.\<close>

record rollupWarning =
  code :: string
  message :: string
  cycle :: "string list option"
  importer :: "string option"
  warning_name :: "string option"
  warning_source :: "string option"
  warning_id :: "string option"
  warning_pos :: "nat option"

datatype error =
  Error string
  | TypeError string
  | RollupError rollupWarning

datatype buildPhase = LOAD_AND_PARSE | ANALYSE | GENERATE

text \<open>\<^verbatim>\<open>PreserveEntrySignaturesOption = false | 'strict' | 'allow-extension'\<close>\<close>

datatype preserveEntrySignaturesOption = PreserveFalse | Strict | AllowExtension

datatype nodeRef = ModuleRef ref | ExternalModuleRef ref

text \<open>The \<open>resolution\<close> of a dynamic import: a Module, an ExternalModule, a string or null.\<close>

datatype resolution =
  ResolvedModule ref
  | ResolvedExternalModule ref
  | ResolutionString string
  | ResolutionNull

record importDescription =
  import_name :: string
  import_module :: nodeRef
  import_start :: nat

text \<open>
  \<open>resolvedIds\<close> maps a source to the \<^verbatim>\<open>id\<close> of its \<^verbatim>\<open>ResolvedId\<close>, the only field of it
  that is read here. Objects used as dictionaries are association lists in insertion order, which
  is the order of \<^verbatim>\<open>Object.keys\<close> and of \<^verbatim>\<open>for ... in\<close>.
\<close>

record module =
  module_id :: string
  isEntryPoint :: bool
  isExecuted :: bool
  isIncluded :: bool
  preserveSignature :: preserveEntrySignaturesOption
  moduleSideEffects :: bool
  sources :: "string list"
  resolvedIds :: "(string \<times> string) list"
  dynamicImports :: "resolution list"
  importers :: "string list"
  dynamicImporters :: "string list"
  includedDynamicImporters :: "ref list"
  importDescriptions :: "(string \<times> importDescription) list"

record externalModule =
  external_id :: string
  external_moduleSideEffects :: bool
  external_importers :: "string list"
  external_dynamicImporters :: "string list"

text \<open>
  The part of the state that code outside \<^verbatim>\<open>Graph.ts\<close> can reach: the objects, the public
  flag \<^verbatim>\<open>needsTreeshakingPass\<close>, and the sequence of warnings handed to \<^verbatim>\<open>onwarn\<close>
  (oldest first).
\<close>

record world =
  moduleObjs :: "ref \<Rightarrow> module"
  externalObjs :: "ref \<Rightarrow> externalModule"
  needsTreeshakingPass :: bool
  warned :: "rollupWarning list"

subsection \<open>Options\<close>

text \<open>
  Modelled from the spec: the option types of \<^verbatim>\<open>rollup/types\<close>, which is not part of the
  sources at hand. \<^verbatim>\<open>moduleSideEffects\<close> is a boolean, \<^verbatim>\<open>'no-external'\<close>, a list of ids or a
  predicate; \<^verbatim>\<open>pureExternalModules\<close> is a boolean, a list of ids or a predicate. An optional
  field that is \<^verbatim>\<open>undefined\<close> is \<open>None\<close>.
\<close>

datatype moduleSideEffectsOption =
  SideEffectsBool bool
  | NoExternal
  | SideEffectsIds "string list"
  | SideEffectsPredicate "string \<Rightarrow> bool \<Rightarrow> bool"

datatype pureModulesOption =
  PureBool bool
  | PureIds "string list"
  | PurePredicate "string \<Rightarrow> bool"

record treeshakingOptions =
  annotations :: "bool option"
  treeshake_moduleSideEffects :: "moduleSideEffectsOption option"
  propertyReadSideEffects :: "bool option"
  pureExternalModules :: "pureModulesOption option"
  tryCatchDeoptimization :: "bool option"
  unknownGlobalSideEffects :: "bool option"

datatype treeshakeOption =
  TreeshakeUndefined
  | TreeshakeBool bool
  | TreeshakeObject treeshakingOptions

text \<open>
  A plugin cache maps a plugin name to its entries, an entry being a key with the pair of an
  access counter and a value. The value is opaque (\<open>'v\<close>), as is a serialised module (\<open>'j\<close>).
\<close>

type_synonym 'v serializablePluginCache = "(string \<times> (int \<times> 'v)) list"

type_synonym 'v pluginCaches = "(string \<times> 'v serializablePluginCache) list"

record ('v, 'j) rollupCache =
  cache_modules :: "'j list option"
  cache_plugins :: "'v pluginCaches option"

datatype ('v, 'j) cacheOption =
  CacheUndefined
  | CacheBool bool
  | CacheObject "('v, 'j) rollupCache"

record ('v, 'j) inputOptions =
  options_cache :: "('v, 'j) cacheOption"
  options_preserveModules :: bool
  options_preserveEntrySignatures :: "preserveEntrySignaturesOption option"
  options_strictDeprecations :: bool
  options_experimentalCacheExpiry :: int
  options_treeshake :: treeshakeOption
  options_shimMissingExports :: bool

subsection \<open>The graph\<close>

record 'v graph =
  world :: world
  moduleById :: "(string \<times> nodeRef) list"
  modules :: "ref list"
  externalModules :: "ref list"
  phase :: buildPhase
  pluginCache :: "'v pluginCaches option"
  cacheExpiry :: int
  preserveModules :: bool
  preserveEntrySignatures :: "preserveEntrySignaturesOption option"
  strictDeprecations :: bool
  shimMissingExports :: bool
  treeshakingOptions :: "treeshakingOptions option"

section \<open>Diagnostics\<close>

text \<open>\<^verbatim>\<open>warn\<close> attaches a stringifier and calls \<^verbatim>\<open>onwarn\<close>: the warning joins the log.\<close>

definition warn :: "rollupWarning \<Rightarrow> world \<Rightarrow> world" where
  "warn warning w = w\<lparr>warned := warned w @ [warning]\<rparr>"

definition plainWarning :: "string \<Rightarrow> string \<Rightarrow> rollupWarning" where
  "plainWarning c m =
     \<lparr>code = c, message = m, cycle = None, importer = None, warning_name = None,
      warning_source = None, warning_id = None, warning_pos = None\<rparr>"

text \<open>
  Modelled from the spec: \<^verbatim>\<open>errDeprecation\<close> of \<^verbatim>\<open>utils/error\<close>, which is not part of the
  sources at hand, builds the diagnostic with code \<^verbatim>\<open>DEPRECATED_FEATURE\<close> around the text.
\<close>

definition errDeprecation :: "string \<Rightarrow> rollupWarning" where
  "errDeprecation deprecation = plainWarning ''DEPRECATED_FEATURE'' deprecation"

text \<open>\<^verbatim>\<open>error(warning)\<close> throws; it is the \<open>Inl\<close> branch.\<close>

definition warnDeprecation :: "bool \<Rightarrow> string \<Rightarrow> bool \<Rightarrow> world \<Rightarrow> error + world" where
  "warnDeprecation strict deprecation activeDeprecation w =
     (if activeDeprecation \<or> strict then
        (let warning = errDeprecation deprecation in
         if strict then Inl (RollupError warning) else Inr (warn warning w))
      else Inr w)"

section \<open>The constructor\<close>

text \<open>Lines 102 to 119: the value assigned to \<^verbatim>\<open>this.treeshakingOptions\<close>.\<close>

definition normalizeTreeshake :: "treeshakeOption \<Rightarrow> treeshakingOptions option" where
  "normalizeTreeshake treeshake =
     (if treeshake \<noteq> TreeshakeBool False then
        Some (case treeshake of
            TreeshakeObject t \<Rightarrow>
              \<lparr>annotations = Some (annotations t \<noteq> Some False),
               treeshake_moduleSideEffects = treeshake_moduleSideEffects t,
               propertyReadSideEffects = Some (propertyReadSideEffects t \<noteq> Some False),
               pureExternalModules = pureExternalModules t,
               tryCatchDeoptimization = Some (tryCatchDeoptimization t \<noteq> Some False),
               unknownGlobalSideEffects = Some (unknownGlobalSideEffects t \<noteq> Some False)\<rparr>
          | _ \<Rightarrow>
              \<lparr>annotations = Some True,
               treeshake_moduleSideEffects = Some (SideEffectsBool True),
               propertyReadSideEffects = Some True,
               pureExternalModules = None,
               tryCatchDeoptimization = Some True,
               unknownGlobalSideEffects = Some True\<rparr>)
      else None)"

definition pureExternalModulesDeprecation :: string where
  "pureExternalModulesDeprecation =
     ''The \"treeshake.pureExternalModules\" option is deprecated. The \"treeshake.moduleSideEffects\" option should be used instead. \"treeshake.pureExternalModules: true\" is equivalent to \"treeshake.moduleSideEffects: 'no-external'\"''"

text \<open>Lines 120 to 125: the deprecation of \<^verbatim>\<open>pureExternalModules\<close>.\<close>

definition checkPureExternalModules ::
  "bool \<Rightarrow> treeshakingOptions option \<Rightarrow> world \<Rightarrow> error + world" where
  "checkPureExternalModules strict topts w =
     (case topts of
        None \<Rightarrow> Inr w
      | Some t \<Rightarrow>
          if pureExternalModules t \<noteq> None
          then warnDeprecation strict pureExternalModulesDeprecation True w
          else Inr w)"

text \<open>Lines 91 to 94: every counter of every plugin's cache goes up by one.\<close>

fun incrementEntries :: "'v serializablePluginCache \<Rightarrow> 'v serializablePluginCache" where
  "incrementEntries [] = []"
| "incrementEntries ((key, (counter, v)) # rest) = (key, (counter + 1, v)) # incrementEntries rest"

fun incrementAccessCounters :: "'v pluginCaches \<Rightarrow> 'v pluginCaches" where
  "incrementAccessCounters [] = []"
| "incrementAccessCounters ((name, cache) # rest) =
     (name, incrementEntries cache) # incrementAccessCounters rest"

text \<open>Line 88: \<^verbatim>\<open>(options.cache && options.cache.plugins) || Object.create(null)\<close>.\<close>

definition suppliedPlugins :: "('v, 'j) cacheOption \<Rightarrow> 'v pluginCaches" where
  "suppliedPlugins c =
     (case c of
        CacheObject oc \<Rightarrow> (case cache_plugins oc of Some p \<Rightarrow> p | None \<Rightarrow> [])
      | _ \<Rightarrow> [])"

definition initialPluginCache :: "('v, 'j) cacheOption \<Rightarrow> 'v pluginCaches option" where
  "initialPluginCache c =
     (if c \<noteq> CacheBool False then Some (incrementAccessCounters (suppliedPlugins c)) else None)"

text \<open>
  The constructor, as far as the fields above go (the parser, the plugin driver, the module
  context and the module loader are left out). It starts from the world it is given, in which no
  warning of this build has been logged yet, and fails where \<^verbatim>\<open>warnDeprecation\<close> throws.
\<close>

definition newGraph :: "('v, 'j) inputOptions \<Rightarrow> world \<Rightarrow> error + 'v graph" where
  "newGraph options w0 =
     (let topts = normalizeTreeshake (options_treeshake options) in
      case checkPureExternalModules (options_strictDeprecations options) topts
             (w0\<lparr>needsTreeshakingPass := False\<rparr>) of
        Inl e \<Rightarrow> Inl e
      | Inr w \<Rightarrow>
          Inr \<lparr>world = w,
               moduleById = [],
               modules = [],
               externalModules = [],
               phase = LOAD_AND_PARSE,
               pluginCache = initialPluginCache (options_cache options),
               cacheExpiry = options_experimentalCacheExpiry options,
               preserveModules = options_preserveModules options,
               preserveEntrySignatures = options_preserveEntrySignatures options,
               strictDeprecations = options_strictDeprecations options,
               shimMissingExports = options_shimMissingExports options,
               treeshakingOptions = topts\<rparr>)"

section \<open>Code that \<^verbatim>\<open>Graph.ts\<close> calls and that is not part of the sources at hand\<close>

text \<open>A Chunk: the two fields the graph sets, and whatever else the Chunk class keeps.\<close>

record 'c chunk =
  orderedModules :: "ref list"
  entryModules :: "ref list"
  chunk_state :: 'c

record unresolvedModule =
  fileName :: "string option"
  unresolved_name :: "string option"
  unresolved_id :: string
  unresolved_importer :: "string option"

datatype entryInput =
  EntryString string
  | EntryArray "string list"
  | EntryRecord "(string \<times> string) list"

datatype manualChunksOption =
  ManualChunksVoid
  | ManualChunksObject "(string \<times> string list) list"
  | ManualChunksFunction "string \<Rightarrow> string option"

text \<open>
  The methods and helpers of the other files are parameters of the model. A method that
  mutates objects is a function on the world; a method of the module loader, which also fills
  \<^verbatim>\<open>moduleById\<close>, is a function on the graph and may throw; a query reads the world.
  \<^verbatim>\<open>getVariableForExportName\<close> is no query: it reads the public field
  \<^verbatim>\<open>shimMissingExports\<close> of the graph, which is its first argument here, and it may add a shim
  to the module and warn. It returns whether the method yields a variable, and the world it leaves.
\<close>

record ('v, 'j, 'c) env =
  toJSON :: "world \<Rightarrow> ref \<Rightarrow> 'j"
  relativeId :: "string \<Rightarrow> string"
  linkDependencies :: "ref \<Rightarrow> world \<Rightarrow> world"
  analyseModuleExecution :: "ref list \<Rightarrow> world \<Rightarrow> (ref list \<times> string list list) \<times> world"
  bindReferences :: "ref \<Rightarrow> world \<Rightarrow> world"
  getVariableForExportName :: "bool \<Rightarrow> nodeRef \<Rightarrow> string \<Rightarrow> world \<Rightarrow> bool \<times> world"
  includeAllExports :: "ref \<Rightarrow> world \<Rightarrow> world"
  markModuleAndImpureDependenciesAsExecuted :: "ref \<Rightarrow> world \<Rightarrow> world"
  module_include :: "ref \<Rightarrow> world \<Rightarrow> world"
  includeAllInBundle :: "ref \<Rightarrow> world \<Rightarrow> world"
  warnUnusedImports :: "ref \<Rightarrow> world \<Rightarrow> world"
  newChunk :: "ref list \<Rightarrow> world \<Rightarrow> 'c chunk \<times> world"
  chunk_link :: "'c chunk \<Rightarrow> world \<Rightarrow> 'c chunk \<times> world"
  generateFacades :: "'c chunk \<Rightarrow> world \<Rightarrow> ('c chunk list \<times> 'c chunk) \<times> world"
  getChunkAssignments :: "ref list \<Rightarrow> (string \<times> ref list) list \<Rightarrow> world \<Rightarrow> ref list list"
  sortByExecutionOrder :: "world \<Rightarrow> ref list \<Rightarrow> ref list"
  addEntryModules ::
    "unresolvedModule list \<Rightarrow> bool \<Rightarrow> 'v graph
      \<Rightarrow> error + ((ref list \<times> (string \<times> ref list) list) \<times> 'v graph)"
  addManualChunks :: "(string \<times> string list) list \<Rightarrow> 'v graph \<Rightarrow> error + 'v graph"
  assignManualChunks :: "(string \<Rightarrow> string option) \<Rightarrow> 'v graph \<Rightarrow> error + 'v graph"

section \<open>\<^verbatim>\<open>getCache\<close>\<close>

text \<open>
  The inner loop of lines 235 to 238: the entries that stay, and the flag \<^verbatim>\<open>allDeleted\<close>.
\<close>

fun evictEntries :: "int \<Rightarrow> 'v serializablePluginCache \<Rightarrow> 'v serializablePluginCache \<times> bool" where
  "evictEntries expiry [] = ([], True)"
| "evictEntries expiry ((key, (counter, v)) # rest) =
     (case evictEntries expiry rest of
        (kept, allDeleted) \<Rightarrow>
          if counter \<ge> expiry then (kept, allDeleted)
          else ((key, (counter, v)) # kept, False))"

fun evictPlugins :: "int \<Rightarrow> 'v pluginCaches \<Rightarrow> 'v pluginCaches" where
  "evictPlugins expiry [] = []"
| "evictPlugins expiry ((name, cache) # rest) =
     (case evictEntries expiry cache of
        (kept, allDeleted) \<Rightarrow>
          if allDeleted then evictPlugins expiry rest
          else (name, kept) # evictPlugins expiry rest)"

text \<open>
  \<^verbatim>\<open>getCache\<close> sweeps \<^verbatim>\<open>this.pluginCache\<close> in place and returns it beside the serialised
  modules. Over an undefined plugin cache the loop does nothing.
\<close>

definition getCache :: "('v, 'j, 'c) env \<Rightarrow> 'v graph \<Rightarrow> ('v, 'j) rollupCache \<times> 'v graph" where
  "getCache env g =
     (let swept = map_option (evictPlugins (cacheExpiry g)) (pluginCache g) in
      (\<lparr>cache_modules = Some (map (toJSON env (world g)) (modules g)), cache_plugins = swept\<rparr>,
       g\<lparr>pluginCache := swept\<rparr>))"

section \<open>\<^verbatim>\<open>getModuleInfo\<close>\<close>

record moduleInfo =
  dynamicallyImportedIds :: "string list"
  info_dynamicImporters :: "string list"
  hasModuleSideEffects :: bool
  info_id :: string
  importedIds :: "string list"
  info_importers :: "string list"
  isEntry :: bool
  isExternal :: bool

text \<open>
  Lines 256 to 258. \<^verbatim>\<open>foundModule.resolvedIds[source]\<close> is \<^verbatim>\<open>undefined\<close> for a source
  without an entry, and reading \<^verbatim>\<open>.id\<close> of it throws a TypeError.
\<close>

fun collectImportedIds :: "(string \<times> string) list \<Rightarrow> string list \<Rightarrow> error + string list" where
  "collectImportedIds rids [] = Inr []"
| "collectImportedIds rids (source # rest) =
     (case map_of rids source of
        None \<Rightarrow> Inl (TypeError ''foundModule.resolvedIds[source] is undefined'')
      | Some i \<Rightarrow>
          (case collectImportedIds rids rest of
             Inl e \<Rightarrow> Inl e
           | Inr ids \<Rightarrow> Inr (i # ids)))"

text \<open>Lines 259 to 263.\<close>

fun collectDynamicallyImportedIds :: "world \<Rightarrow> resolution list \<Rightarrow> string list" where
  "collectDynamicallyImportedIds w [] = []"
| "collectDynamicallyImportedIds w (ResolvedModule m # rest) =
     module_id (moduleObjs w m) # collectDynamicallyImportedIds w rest"
| "collectDynamicallyImportedIds w (ResolvedExternalModule e # rest) =
     external_id (externalObjs w e) # collectDynamicallyImportedIds w rest"
| "collectDynamicallyImportedIds w (_ # rest) = collectDynamicallyImportedIds w rest"

definition getModuleInfo :: "'v graph \<Rightarrow> string \<Rightarrow> error + moduleInfo" where
  "getModuleInfo g moduleId =
     (case map_of (moduleById g) moduleId of
        None \<Rightarrow> Inl (Error (''Unable to find module '' @ moduleId))
      | Some (ModuleRef m) \<Rightarrow>
          (let foundModule = moduleObjs (world g) m in
           case collectImportedIds (resolvedIds foundModule) (sources foundModule) of
             Inl e \<Rightarrow> Inl e
           | Inr ids \<Rightarrow>
               Inr \<lparr>dynamicallyImportedIds =
                      collectDynamicallyImportedIds (world g) (dynamicImports foundModule),
                    info_dynamicImporters = dynamicImporters foundModule,
                    hasModuleSideEffects = moduleSideEffects foundModule,
                    info_id = module_id foundModule,
                    importedIds = ids,
                    info_importers = importers foundModule,
                    isEntry = isEntryPoint foundModule,
                    isExternal = False\<rparr>)
      | Some (ExternalModuleRef e) \<Rightarrow>
          (let foundModule = externalObjs (world g) e in
           Inr \<lparr>dynamicallyImportedIds = [],
                info_dynamicImporters = external_dynamicImporters foundModule,
                hasModuleSideEffects = external_moduleSideEffects foundModule,
                info_id = external_id foundModule,
                importedIds = [],
                info_importers = external_importers foundModule,
                isEntry = False,
                isExternal = True\<rparr>))"

section \<open>\<^verbatim>\<open>link\<close> and \<^verbatim>\<open>warnForMissingExports\<close>\<close>

text \<open>\<^verbatim>\<open>Array.prototype.join\<close>.\<close>

fun join :: "string \<Rightarrow> string list \<Rightarrow> string" where
  "join sep [] = []"
| "join sep [x] = x"
| "join sep (x # y # rest) = x @ sep @ join sep (y # rest)"

text \<open>The warning of lines 371 to 376; \<^verbatim>\<open>cyclePath[0]\<close> of an empty path is undefined.\<close>

definition circularDependencyWarning :: "string list \<Rightarrow> rollupWarning" where
  "circularDependencyWarning cyclePath =
     \<lparr>code = ''CIRCULAR_DEPENDENCY'',
      message = ''Circular dependency: '' @ join '' -> '' cyclePath,
      cycle = Some cyclePath,
      importer = (case cyclePath of [] \<Rightarrow> None | first # _ \<Rightarrow> Some first),
      warning_name = None, warning_source = None, warning_id = None, warning_pos = None\<rparr>"

text \<open>\<^verbatim>\<open>(importDescription.module as Module).id\<close>\<close>

definition producerId :: "world \<Rightarrow> nodeRef \<Rightarrow> string" where
  "producerId w r =
     (case r of
        ModuleRef m \<Rightarrow> module_id (moduleObjs w m)
      | ExternalModuleRef e \<Rightarrow> external_id (externalObjs w e))"

text \<open>The warning of lines 420 to 427.\<close>

definition nonExistentExportWarning ::
  "('v, 'j, 'c) env \<Rightarrow> world \<Rightarrow> importDescription \<Rightarrow> rollupWarning" where
  "nonExistentExportWarning env w d =
     \<lparr>code = ''NON_EXISTENT_EXPORT'',
      message = ''Non-existent export '' @ [CHR 39] @ import_name d @ [CHR 39]
                @ '' is imported from '' @ relativeId env (producerId w (import_module d)),
      cycle = None, importer = None,
      warning_name = Some (import_name d),
      warning_source = Some (producerId w (import_module d)),
      warning_id = None, warning_pos = None\<rparr>"

text \<open>
  Modelled from the spec: \<^verbatim>\<open>Module.warn(warning, pos)\<close>, which is not part of the sources at
  hand. A warning is non-fatal and routed to \<^verbatim>\<open>onwarn\<close>; the module adds its own id and the
  position before it hands the warning to the graph's \<^verbatim>\<open>warn\<close>.
\<close>

definition module_warn :: "ref \<Rightarrow> rollupWarning \<Rightarrow> nat \<Rightarrow> world \<Rightarrow> world" where
  "module_warn m warning pos w =
     warn (warning\<lparr>warning_id := Some (module_id (moduleObjs w m)), warning_pos := Some pos\<rparr>) w"

text \<open>
  The body of the inner loop, lines 414 to 430. The lookup runs only for a name that is not
  \<^verbatim>\<open>*\<close>, and the warning is built in the world that the lookup leaves.
\<close>

definition warnForImport ::
  "('v, 'j, 'c) env \<Rightarrow> bool \<Rightarrow> ref \<Rightarrow> string \<times> importDescription \<Rightarrow> world \<Rightarrow> world" where
  "warnForImport env shim m entry w =
     (let importDescription = snd entry in
      if import_name importDescription \<noteq> ''*'' then
        (case getVariableForExportName env shim (import_module importDescription)
                (import_name importDescription) w of
           (found, w1) \<Rightarrow>
             if \<not> found
             then module_warn m (nonExistentExportWarning env w1 importDescription)
                    (import_start importDescription) w1
             else w1)
      else w)"

definition warnForMissingExports :: "('v, 'j, 'c) env \<Rightarrow> 'v graph \<Rightarrow> 'v graph" where
  "warnForMissingExports env g =
     g\<lparr>world :=
         fold (\<lambda>m w. fold (warnForImport env (shimMissingExports g) m)
                       (importDescriptions (moduleObjs w m)) w)
           (modules g) (world g)\<rparr>"

definition link :: "('v, 'j, 'c) env \<Rightarrow> ref list \<Rightarrow> 'v graph \<Rightarrow> 'v graph" where
  "link env entries g =
     (let w1 = fold (linkDependencies env) (modules g) (world g) in
      case analyseModuleExecution env entries w1 of
        ((ordered, cyclePaths), w2) \<Rightarrow>
          (let w3 = fold (\<lambda>cyclePath. warn (circularDependencyWarning cyclePath)) cyclePaths w2;
               w4 = fold (bindReferences env) ordered w3
           in warnForMissingExports env (g\<lparr>world := w4, modules := ordered\<rparr>)))"

section \<open>\<^verbatim>\<open>includeStatements\<close>\<close>

text \<open>Lines 340 to 346.\<close>

definition seedEntryModule :: "('v, 'j, 'c) env \<Rightarrow> ref \<Rightarrow> world \<Rightarrow> world" where
  "seedEntryModule env m w =
     (if preserveSignature (moduleObjs w m) \<noteq> PreserveFalse
      then includeAllExports env m w
      else markModuleAndImpureDependenciesAsExecuted env m w)"

text \<open>Lines 352 to 354: one pass over \<^verbatim>\<open>this.modules\<close>.\<close>

definition includeIfExecuted :: "('v, 'j, 'c) env \<Rightarrow> ref \<Rightarrow> world \<Rightarrow> world" where
  "includeIfExecuted env m w = (if isExecuted (moduleObjs w m) then module_include env m w else w)"

definition treeshakingPass :: "('v, 'j, 'c) env \<Rightarrow> ref list \<Rightarrow> world \<Rightarrow> world" where
  "treeshakingPass env ms w = fold (includeIfExecuted env) ms (w\<lparr>needsTreeshakingPass := False\<rparr>)"

text \<open>
  The \<^verbatim>\<open>do ... while\<close> of lines 348 to 356, with the pass counter. Nothing in the loop bounds
  the number of passes, so a run that never ends is the value \<open>None\<close>. The result is the world
  after the last pass and the final value of the counter, one more than the passes made.
\<close>

partial_function (option) treeshakingLoop ::
  "('v, 'j, 'c) env \<Rightarrow> ref list \<Rightarrow> nat \<Rightarrow> world \<Rightarrow> (world \<times> nat) option" where
  "treeshakingLoop env ms counter w =
     (let w' = treeshakingPass env ms w in
      if needsTreeshakingPass w' then treeshakingLoop env ms (counter + 1) w'
      else Some (w', counter + 1))"

definition includeStatements :: "('v, 'j, 'c) env \<Rightarrow> ref list \<Rightarrow> 'v graph \<Rightarrow> 'v graph option" where
  "includeStatements env entries g =
     (let w1 = fold (seedEntryModule env) entries (world g) in
      case (case treeshakingOptions g of
              Some _ \<Rightarrow> map_option fst (treeshakingLoop env (modules g) 1 w1)
            | None \<Rightarrow> Some (fold (includeAllInBundle env) (modules g) w1)) of
        None \<Rightarrow> None
      | Some w2 \<Rightarrow> Some (g\<lparr>world := fold (warnUnusedImports env) (externalModules g) w2\<rparr>))"

section \<open>\<^verbatim>\<open>generateChunks\<close>\<close>

text \<open>Lines 309 to 319: the chunks of preserve-modules mode.\<close>

fun chunksPerModule :: "('v, 'j, 'c) env \<Rightarrow> ref list \<Rightarrow> world \<Rightarrow> 'c chunk list \<times> world" where
  "chunksPerModule env [] w = ([], w)"
| "chunksPerModule env (m # ms) w =
     (if isIncluded (moduleObjs w m) \<or> isEntryPoint (moduleObjs w m)
         \<or> length (includedDynamicImporters (moduleObjs w m)) > 0
      then (case newChunk env [m] w of
              (chunk, w1) \<Rightarrow>
                (case chunksPerModule env ms w1 of
                   (chunks, w2) \<Rightarrow> (chunk\<lparr>entryModules := [m]\<rparr> # chunks, w2)))
      else chunksPerModule env ms w)"

text \<open>Lines 321 to 326: one chunk for each list of modules, sorted first.\<close>

fun chunksOfAssignments ::
  "('v, 'j, 'c) env \<Rightarrow> ref list list \<Rightarrow> world \<Rightarrow> 'c chunk list \<times> world" where
  "chunksOfAssignments env [] w = ([], w)"
| "chunksOfAssignments env (chunkModules # rest) w =
     (case newChunk env (sortByExecutionOrder env w chunkModules) w of
        (chunk, w1) \<Rightarrow>
          (case chunksOfAssignments env rest w1 of
             (chunks, w2) \<Rightarrow> (chunk # chunks, w2)))"

text \<open>Lines 329 to 331.\<close>

fun linkChunks :: "('v, 'j, 'c) env \<Rightarrow> 'c chunk list \<Rightarrow> world \<Rightarrow> 'c chunk list \<times> world" where
  "linkChunks env [] w = ([], w)"
| "linkChunks env (chunk # rest) w =
     (case chunk_link env chunk w of
        (chunk', w1) \<Rightarrow>
          (case linkChunks env rest w1 of
             (rest', w2) \<Rightarrow> (chunk' # rest', w2)))"

text \<open>Lines 332 to 335: the facades of every chunk, and the chunks as the calls leave them.\<close>

fun facadesOfChunks ::
  "('v, 'j, 'c) env \<Rightarrow> 'c chunk list \<Rightarrow> world \<Rightarrow> ('c chunk list \<times> 'c chunk list) \<times> world" where
  "facadesOfChunks env [] w = (([], []), w)"
| "facadesOfChunks env (chunk # rest) w =
     (case generateFacades env chunk w of
        ((facades, chunk'), w1) \<Rightarrow>
          (case facadesOfChunks env rest w1 of
             ((facades', rest'), w2) \<Rightarrow> ((facades @ facades', chunk' # rest'), w2)))"

text \<open>
  The chunks and the facades of \<^verbatim>\<open>generateChunks\<close>, kept apart. In inline-dynamic mode the
  array that is sorted in place is \<^verbatim>\<open>this.modules\<close> itself.
\<close>

definition chunksAndFacades ::
  "('v, 'j, 'c) env \<Rightarrow> ref list \<Rightarrow> (string \<times> ref list) list \<Rightarrow> bool \<Rightarrow> 'v graph
     \<Rightarrow> ('c chunk list \<times> 'c chunk list) \<times> 'v graph" where
  "chunksAndFacades env entries manualChunkModulesByAlias inlineDynamicImports g =
     (let g1 = (if \<not> preserveModules g \<and> inlineDynamicImports
                then g\<lparr>modules := sortByExecutionOrder env (world g) (modules g)\<rparr> else g);
          created =
            (if preserveModules g then chunksPerModule env (modules g) (world g)
             else chunksOfAssignments env
                    (if inlineDynamicImports then [modules g]
                     else getChunkAssignments env entries manualChunkModulesByAlias (world g))
                    (world g))
      in case linkChunks env (fst created) (snd created) of
           (linked, w1) \<Rightarrow>
             (case facadesOfChunks env linked w1 of
                ((facades, chunks), w2) \<Rightarrow> ((chunks, facades), g1\<lparr>world := w2\<rparr>)))"

definition generateChunks ::
  "('v, 'j, 'c) env \<Rightarrow> ref list \<Rightarrow> (string \<times> ref list) list \<Rightarrow> bool \<Rightarrow> 'v graph
     \<Rightarrow> 'c chunk list \<times> 'v graph" where
  "generateChunks env entries manualChunkModulesByAlias inlineDynamicImports g =
     (case chunksAndFacades env entries manualChunkModulesByAlias inlineDynamicImports g of
        ((chunks, facades), g') \<Rightarrow> (chunks @ facades, g'))"

section \<open>\<^verbatim>\<open>parseModules\<close> and \<^verbatim>\<open>build\<close>\<close>

definition unresolved :: "string option \<Rightarrow> string \<Rightarrow> unresolvedModule" where
  "unresolved n i = \<lparr>fileName = None, unresolved_name = n, unresolved_id = i, unresolved_importer = None\<rparr>"

definition normalizeEntryModules :: "entryInput \<Rightarrow> unresolvedModule list" where
  "normalizeEntryModules entryModuleIds =
     (case entryModuleIds of
        EntryString i \<Rightarrow> [unresolved None i]
      | EntryArray ids \<Rightarrow> map (unresolved None) ids
      | EntryRecord named \<Rightarrow> map (\<lambda>(n, i). unresolved (Some n) i) named)"

text \<open>Lines 401 to 407.\<close>

definition pushNode :: "nodeRef \<Rightarrow> 'v graph \<Rightarrow> 'v graph" where
  "pushNode r g =
     (case r of
        ModuleRef m \<Rightarrow> g\<lparr>modules := modules g @ [m]\<rparr>
      | ExternalModuleRef e \<Rightarrow> g\<lparr>externalModules := externalModules g @ [e]\<rparr>)"

text \<open>
  \<^verbatim>\<open>parseModules\<close>. The two promises of \<^verbatim>\<open>Promise.all\<close> run one after the other here;
  when either is rejected, so is the whole.
\<close>

definition parseModules ::
  "('v, 'j, 'c) env \<Rightarrow> entryInput \<Rightarrow> manualChunksOption \<Rightarrow> 'v graph
     \<Rightarrow> error + ((ref list \<times> (string \<times> ref list) list) \<times> 'v graph)" where
  "parseModules env entryModuleIds manualChunks g =
     (case addEntryModules env (normalizeEntryModules entryModuleIds) True g of
        Inl e \<Rightarrow> Inl e
      | Inr ((entries, manualChunkModulesByAlias), g1) \<Rightarrow>
          (case (case manualChunks of
                   ManualChunksObject byAlias \<Rightarrow> addManualChunks env byAlias g1
                 | _ \<Rightarrow> Inr g1) of
             Inl e \<Rightarrow> Inl e
           | Inr g2 \<Rightarrow>
               (case (case manualChunks of
                        ManualChunksFunction f \<Rightarrow> assignManualChunks env f g2
                      | _ \<Rightarrow> Inr g2) of
                  Inl e \<Rightarrow> Inl e
                | Inr g3 \<Rightarrow>
                    if length entries = 0
                    then Inl (Error ''You must supply options.input to rollup'')
                    else Inr ((entries, manualChunkModulesByAlias),
                              fold pushNode (map snd (moduleById g3)) g3))))"

text \<open>\<^verbatim>\<open>build\<close>: \<open>None\<close> when the tree-shaking loop never ends, \<open>Inl\<close> when the build fails.\<close>

definition build ::
  "('v, 'j, 'c) env \<Rightarrow> entryInput \<Rightarrow> manualChunksOption \<Rightarrow> bool \<Rightarrow> 'v graph
     \<Rightarrow> (error + ('c chunk list \<times> 'v graph)) option" where
  "build env entryModuleIds manualChunks inlineDynamicImports g =
     (case parseModules env entryModuleIds manualChunks g of
        Inl e \<Rightarrow> Some (Inl e)
      | Inr ((entries, manualChunkModulesByAlias), g1) \<Rightarrow>
          (case includeStatements env entries (link env entries (g1\<lparr>phase := ANALYSE\<rparr>)) of
             None \<Rightarrow> None
           | Some g3 \<Rightarrow>
               (case generateChunks env entries manualChunkModulesByAlias inlineDynamicImports g3 of
                  (chunks, g4) \<Rightarrow> Some (Inr (chunks, g4\<lparr>phase := GENERATE\<rparr>)))))"

section \<open>Notions used to state the properties\<close>

subsection \<open>The plugin cache in the words of the specification\<close>

text \<open>
  Counters go up by one when the cache is loaded; at a snapshot the entries whose counter is
  below the expiry survive, and a plugin survives with its surviving entries when it has any.
\<close>

definition survivingEntries :: "int \<Rightarrow> 'v serializablePluginCache \<Rightarrow> 'v serializablePluginCache" where
  "survivingEntries expiry cache = filter (\<lambda>(key, (counter, v)). counter < expiry) cache"

definition snapshotPlugins :: "int \<Rightarrow> 'v pluginCaches \<Rightarrow> 'v pluginCaches" where
  "snapshotPlugins expiry pc =
     filter (\<lambda>(name, cache). cache \<noteq> [])
       (map (\<lambda>(name, cache). (name, survivingEntries expiry cache)) pc)"

definition countersPlusOne :: "'v pluginCaches \<Rightarrow> 'v pluginCaches" where
  "countersPlusOne pc =
     map (\<lambda>(name, cache). (name, map (\<lambda>(key, (counter, v)). (key, (counter + 1, v))) cache)) pc"

subsection \<open>The calls of the seeding\<close>

text \<open>
  The calls that the loop of lines 340 to 346 makes on the two helpers, in the order of the
  calls: the loop again, keeping the calls instead of the world.
\<close>

datatype seedCall =
  IncludeAllExports ref
  | MarkModuleAndImpureDependenciesAsExecuted ref

fun seedCalls :: "('v, 'j, 'c) env \<Rightarrow> ref list \<Rightarrow> world \<Rightarrow> seedCall list" where
  "seedCalls env [] w = []"
| "seedCalls env (m # ms) w =
     (if preserveSignature (moduleObjs w m) \<noteq> PreserveFalse
      then IncludeAllExports m # seedCalls env ms (includeAllExports env m w)
      else MarkModuleAndImpureDependenciesAsExecuted m
             # seedCalls env ms (markModuleAndImpureDependenciesAsExecuted env m w))"

fun seedTarget :: "seedCall \<Rightarrow> ref" where
  "seedTarget (IncludeAllExports m) = m"
| "seedTarget (MarkModuleAndImpureDependenciesAsExecuted m) = m"

fun runSeedCall :: "('v, 'j, 'c) env \<Rightarrow> seedCall \<Rightarrow> world \<Rightarrow> world" where
  "runSeedCall env (IncludeAllExports m) w = includeAllExports env m w"
| "runSeedCall env (MarkModuleAndImpureDependenciesAsExecuted m) w =
     markModuleAndImpureDependenciesAsExecuted env m w"

text \<open>
  What is asked of a method when a property is to last through the calls that follow: it only
  adds to the included set, and it leaves a module that is marked as executed so.
\<close>

definition onlyAdds :: "(world \<Rightarrow> 'a set) \<Rightarrow> (ref \<Rightarrow> world \<Rightarrow> world) \<Rightarrow> bool" where
  "onlyAdds marked f \<longleftrightarrow> (\<forall>x w. marked w \<subseteq> marked (f x w))"

definition keepsExecuted :: "(ref \<Rightarrow> world \<Rightarrow> world) \<Rightarrow> bool" where
  "keepsExecuted f \<longleftrightarrow>
     (\<forall>x w m. isExecuted (moduleObjs w m) \<longrightarrow> isExecuted (moduleObjs (f x w) m))"

subsection \<open>The calls of a tree-shaking pass\<close>

text \<open>
  The modules on which one pass over \<open>ms\<close> calls \<^verbatim>\<open>include\<close>, in the order of the calls:
  lines 352 to 354 again, keeping the calls instead of the world.
\<close>

fun includeCalls :: "('v, 'j, 'c) env \<Rightarrow> ref list \<Rightarrow> world \<Rightarrow> ref list" where
  "includeCalls env [] w = []"
| "includeCalls env (m # ms) w =
     (if isExecuted (moduleObjs w m) then m # includeCalls env ms (module_include env m w)
      else includeCalls env ms w)"

subsection \<open>Chunks of preserve-modules mode\<close>

text \<open>The test of lines 310 to 314: the modules that get a chunk of their own.\<close>

definition ownChunk :: "world \<Rightarrow> ref \<Rightarrow> bool" where
  "ownChunk w m \<longleftrightarrow>
     isIncluded (moduleObjs w m) \<or> isEntryPoint (moduleObjs w m)
     \<or> includedDynamicImporters (moduleObjs w m) \<noteq> []"

subsection \<open>Warnings\<close>

text \<open>The warnings of one code in the log.\<close>

definition warnedWith :: "string \<Rightarrow> world \<Rightarrow> rollupWarning list" where
  "warnedWith c w = filter (\<lambda>x. code x = c) (warned w)"

text \<open>
  The warning that \<^verbatim>\<open>onwarn\<close> gets for an import description \<open>d\<close> of the module \<open>m\<close>.
\<close>

definition missingExportWarning ::
  "('v, 'j, 'c) env \<Rightarrow> world \<Rightarrow> ref \<Rightarrow> importDescription \<Rightarrow> rollupWarning" where
  "missingExportWarning env w m d =
     (nonExistentExportWarning env w d)
       \<lparr>warning_id := Some (module_id (moduleObjs w m)), warning_pos := Some (import_start d)\<rparr>"

text \<open>
  The condition of the claim at an import description, in the world \<open>w\<close> in which the loop
  reaches it: the name is not \<^verbatim>\<open>*\<close> and the lookup yields no variable.
\<close>

definition isMissingExport ::
  "('v, 'j, 'c) env \<Rightarrow> bool \<Rightarrow> importDescription \<Rightarrow> world \<Rightarrow> bool" where
  "isMissingExport env shim d w \<longleftrightarrow>
     import_name d \<noteq> ''*''
     \<and> \<not> fst (getVariableForExportName env shim (import_module d) (import_name d) w)"

text \<open>The world after the lookup for an import description, when there is a lookup.\<close>

definition afterLookup ::
  "('v, 'j, 'c) env \<Rightarrow> bool \<Rightarrow> importDescription \<Rightarrow> world \<Rightarrow> world" where
  "afterLookup env shim d w =
     (if import_name d \<noteq> ''*''
      then snd (getVariableForExportName env shim (import_module d) (import_name d) w)
      else w)"

text \<open>
  The warnings for missing exports in the order of the loops of lines 412 to 432: for each
  import description of each module, the warning when the condition holds in the world reached.
\<close>

fun missingImportWarnings ::
  "('v, 'j, 'c) env \<Rightarrow> bool \<Rightarrow> ref \<Rightarrow> (string \<times> importDescription) list \<Rightarrow> world
     \<Rightarrow> rollupWarning list" where
  "missingImportWarnings env shim m [] w = []"
| "missingImportWarnings env shim m (entry # rest) w =
     (if isMissingExport env shim (snd entry) w
      then [missingExportWarning env (afterLookup env shim (snd entry) w) m (snd entry)]
      else [])
     @ missingImportWarnings env shim m rest (warnForImport env shim m entry w)"

fun missingExportWarnings ::
  "('v, 'j, 'c) env \<Rightarrow> bool \<Rightarrow> ref list \<Rightarrow> world \<Rightarrow> rollupWarning list" where
  "missingExportWarnings env shim [] w = []"
| "missingExportWarnings env shim (m # ms) w =
     missingImportWarnings env shim m (importDescriptions (moduleObjs w m)) w
     @ missingExportWarnings env shim ms
         (fold (warnForImport env shim m) (importDescriptions (moduleObjs w m)) w)"

text \<open>
  The same when nothing depends on the world reached: every import description of every module
  whose name is not \<^verbatim>\<open>*\<close>, in order, with the ids as they are in \<open>w\<close>.
\<close>

definition allNamedImportWarnings ::
  "('v, 'j, 'c) env \<Rightarrow> ref list \<Rightarrow> world \<Rightarrow> rollupWarning list" where
  "allNamedImportWarnings env ms w =
     concat (map (\<lambda>m. map (missingExportWarning env w m)
                         (filter (\<lambda>d. import_name d \<noteq> ''*'')
                            (map snd (importDescriptions (moduleObjs w m)))))
               ms)"

text \<open>
  What the lookup may leave alone: the import descriptions and the ids of all objects.
\<close>

definition sameLinks :: "world \<Rightarrow> world \<Rightarrow> bool" where
  "sameLinks w w' \<longleftrightarrow>
     (\<forall>m. importDescriptions (moduleObjs w' m) = importDescriptions (moduleObjs w m)
          \<and> module_id (moduleObjs w' m) = module_id (moduleObjs w m))
     \<and> (\<forall>e. external_id (externalObjs w' e) = external_id (externalObjs w e))"

section \<open>Example inputs\<close>

text \<open>
  A graph of two modules and one external module. \<^verbatim>\<open>a.js\<close> is the entry: it imports \<open>y\<close>,
  \<open>x\<close> and the namespace of \<^verbatim>\<open>b.js\<close>, and imports \<^verbatim>\<open>b.js\<close> and \<^verbatim>\<open>ext\<close> dynamically.
  The cells of the heaps that hold no object hold a blank one.
\<close>

definition blankModule :: module where
  "blankModule =
     \<lparr>module_id = [], isEntryPoint = False, isExecuted = False, isIncluded = False,
      preserveSignature = Strict, moduleSideEffects = True, sources = [], resolvedIds = [],
      dynamicImports = [], importers = [], dynamicImporters = [], includedDynamicImporters = [],
      importDescriptions = []\<rparr>"

definition blankExternal :: externalModule where
  "blankExternal =
     \<lparr>external_id = [], external_moduleSideEffects = True, external_importers = [],
      external_dynamicImporters = []\<rparr>"

definition emptyWorld :: world where
  "emptyWorld =
     \<lparr>moduleObjs = (\<lambda>_. blankModule), externalObjs = (\<lambda>_. blankExternal),
      needsTreeshakingPass = False, warned = []\<rparr>"

definition moduleA :: module where
  "moduleA =
     \<lparr>module_id = ''a.js'', isEntryPoint = True, isExecuted = True, isIncluded = False,
      preserveSignature = Strict, moduleSideEffects = True,
      sources = [''./b''], resolvedIds = [(''./b'', ''b.js'')],
      dynamicImports = [ResolvedModule 1, ResolutionString ''name'', ResolutionNull,
                        ResolvedExternalModule 0],
      importers = [], dynamicImporters = [''b.js''], includedDynamicImporters = [],
      importDescriptions =
        [(''y'', \<lparr>import_name = ''y'', import_module = ModuleRef 1, import_start = 7\<rparr>),
         (''ns'', \<lparr>import_name = ''*'', import_module = ModuleRef 1, import_start = 30\<rparr>),
         (''x'', \<lparr>import_name = ''x'', import_module = ModuleRef 1, import_start = 50\<rparr>)]\<rparr>"

definition moduleB :: module where
  "moduleB =
     \<lparr>module_id = ''b.js'', isEntryPoint = False, isExecuted = True, isIncluded = False,
      preserveSignature = PreserveFalse, moduleSideEffects = False,
      sources = [], resolvedIds = [], dynamicImports = [],
      importers = [''a.js''], dynamicImporters = [], includedDynamicImporters = [],
      importDescriptions = []\<rparr>"

definition externalE :: externalModule where
  "externalE =
     \<lparr>external_id = ''ext'', external_moduleSideEffects = False, external_importers = [],
      external_dynamicImporters = [''a.js'']\<rparr>"

definition exampleWorld :: world where
  "exampleWorld =
     \<lparr>moduleObjs = (\<lambda>r. if r = 0 then moduleA else if r = 1 then moduleB else blankModule),
      externalObjs = (\<lambda>r. if r = 0 then externalE else blankExternal),
      needsTreeshakingPass = False, warned = []\<rparr>"

definition exampleGraph :: "string graph" where
  "exampleGraph =
     \<lparr>world = exampleWorld,
      moduleById = [(''a.js'', ModuleRef 0), (''b.js'', ModuleRef 1), (''ext'', ExternalModuleRef 0)],
      modules = [0, 1],
      externalModules = [0],
      phase = ANALYSE,
      pluginCache = None,
      cacheExpiry = 10,
      preserveModules = False,
      preserveEntrySignatures = Some Strict,
      strictDeprecations = False,
      shimMissingExports = False,
      treeshakingOptions = normalizeTreeshake TreeshakeUndefined\<rparr>"

definition preserveModulesGraph :: "string graph" where
  "preserveModulesGraph = exampleGraph\<lparr>preserveModules := True\<rparr>"

definition shimmingGraph :: "string graph" where
  "shimmingGraph = exampleGraph\<lparr>shimMissingExports := True\<rparr>"

text \<open>The same graph before \<^verbatim>\<open>b.js\<close> is marked as executed.\<close>

definition dormantModuleB :: module where
  "dormantModuleB = moduleB\<lparr>isExecuted := False\<rparr>"

definition dormantGraph :: "string graph" where
  "dormantGraph =
     exampleGraph\<lparr>world := exampleWorld\<lparr>moduleObjs := (moduleObjs exampleWorld)(1 := dormantModuleB)\<rparr>\<rparr>"

text \<open>A module whose source has not been resolved yet, in the graph of the example.\<close>

definition unresolvedModuleA :: module where
  "unresolvedModuleA = moduleA\<lparr>resolvedIds := []\<rparr>"

definition unresolvedGraph :: "string graph" where
  "unresolvedGraph =
     exampleGraph\<lparr>world := exampleWorld\<lparr>moduleObjs := (moduleObjs exampleWorld)(0 := unresolvedModuleA)\<rparr>\<rparr>"

text \<open>Options with a plugin cache of two plugins and a tree-shaking object.\<close>

definition exampleTreeshake :: treeshakingOptions where
  "exampleTreeshake =
     \<lparr>annotations = Some False, treeshake_moduleSideEffects = Some NoExternal,
      propertyReadSideEffects = None, pureExternalModules = Some (PureBool True),
      tryCatchDeoptimization = Some True, unknownGlobalSideEffects = None\<rparr>"

definition exampleOptions :: "(string, string) inputOptions" where
  "exampleOptions =
     \<lparr>options_cache =
        CacheObject \<lparr>cache_modules = None,
          cache_plugins = Some [(''p'', [(''k1'', (0, ''a'')), (''k2'', (4, ''b''))]),
                                (''q'', [(''k'', (9, ''c''))])]\<rparr>,
      options_preserveModules = False,
      options_preserveEntrySignatures = Some Strict,
      options_strictDeprecations = False,
      options_experimentalCacheExpiry = 5,
      options_treeshake = TreeshakeObject exampleTreeshake,
      options_shimMissingExports = False\<rparr>"

text \<open>
  Stand-ins for the code outside \<^verbatim>\<open>Graph.ts\<close>: including a module marks it and asks for
  another pass when the mark is new, only \<open>x\<close> is ever exported and any other name is shimmed
  with a warning when \<^verbatim>\<open>shimMissingExports\<close> is set, the analysis reports the cycle
  of \<^verbatim>\<open>a.js\<close> on itself, a chunk stores its modules, and the loader returns one entry module
  for each unresolved entry.
\<close>

definition exampleEnv :: "(string, string, unit) env" where
  "exampleEnv =
     \<lparr>toJSON = (\<lambda>w m. module_id (moduleObjs w m)),
      relativeId = (\<lambda>i. i),
      linkDependencies = (\<lambda>m w. w),
      analyseModuleExecution = (\<lambda>entries w. ((entries, [[''a.js'']]), w)),
      bindReferences = (\<lambda>m w. w),
      getVariableForExportName =
        (\<lambda>shim r n w. if n = ''x'' then (True, w)
                      else if shim then (True, warn (plainWarning ''SHIMMED_EXPORT'' n) w)
                      else (False, w)),
      includeAllExports =
        (\<lambda>m w. w\<lparr>moduleObjs := (moduleObjs w)(m := (moduleObjs w m)\<lparr>isIncluded := True\<rparr>)\<rparr>),
      markModuleAndImpureDependenciesAsExecuted =
        (\<lambda>m w. w\<lparr>moduleObjs := (moduleObjs w)(m := (moduleObjs w m)\<lparr>isExecuted := True\<rparr>)\<rparr>),
      module_include =
        (\<lambda>m w. if m < 2 \<and> \<not> isIncluded (moduleObjs w m)
               then w\<lparr>moduleObjs := (moduleObjs w)(m := (moduleObjs w m)\<lparr>isIncluded := True\<rparr>),
                      needsTreeshakingPass := True\<rparr>
               else w),
      includeAllInBundle =
        (\<lambda>m w. w\<lparr>moduleObjs := (moduleObjs w)(m := (moduleObjs w m)\<lparr>isIncluded := True\<rparr>)\<rparr>),
      warnUnusedImports = (\<lambda>e w. w),
      newChunk = (\<lambda>ms w. (\<lparr>orderedModules = ms, entryModules = [], chunk_state = ()\<rparr>, w)),
      chunk_link = (\<lambda>c w. (c, w)),
      generateFacades = (\<lambda>c w. (([], c), w)),
      getChunkAssignments = (\<lambda>entries byAlias w. map (\<lambda>m. [m]) entries),
      sortByExecutionOrder = (\<lambda>w ms. ms),
      addEntryModules = (\<lambda>unresolvedModules isUserDefined g.
         Inr (([0..<length unresolvedModules], []), g)),
      addManualChunks = (\<lambda>byAlias g. Inr g),
      assignManualChunks = (\<lambda>f g. Inr g)\<rparr>"

text \<open>The modules of the example that are marked as included: a set that only grows.\<close>

definition exampleMarked :: "world \<Rightarrow> ref set" where
  "exampleMarked w = {m. m < 2 \<and> isIncluded (moduleObjs w m)}"

text \<open>The exports of a module of the example: the module itself stands for them.\<close>

definition exampleExports :: "ref \<Rightarrow> ref set" where
  "exampleExports m = {x. x = m \<and> m < 2}"

section \<open>Properties\<close>

subsection \<open>The constructor: tree-shaking options\<close>

lemma newGraph_fields:
  "newGraph options w0 = Inr g \<Longrightarrow>
     pluginCache g = initialPluginCache (options_cache options)
   \<and> cacheExpiry g = options_experimentalCacheExpiry options
   \<and> treeshakingOptions g = normalizeTreeshake (options_treeshake options)"
  by (auto simp: newGraph_def Let_def split: sum.splits)

lemma normalizeTreeshake_Some:
  "treeshake \<noteq> TreeshakeBool False \<Longrightarrow> \<exists>t. normalizeTreeshake treeshake = Some t"
  by (simp add: normalizeTreeshake_def)

text \<open>
  Claim C10. Every value of \<^verbatim>\<open>options.treeshake\<close> but the literal \<^verbatim>\<open>false\<close> (so
  \<^verbatim>\<open>true\<close>, \<^verbatim>\<open>undefined\<close> and any object) gives the graph tree-shaking options, that
  is, enables tree-shaking. For an object, \<open>annotations\<close>, \<open>propertyReadSideEffects\<close>,
  \<open>tryCatchDeoptimization\<close> and \<open>unknownGlobalSideEffects\<close> are true unless given as
  exactly \<^verbatim>\<open>false\<close>, while \<open>moduleSideEffects\<close> and \<open>pureExternalModules\<close> are passed
  through; otherwise all four are true. A defined \<open>pureExternalModules\<close> always produces the
  deprecation diagnostic: a logged warning, or under strict deprecations the error that ends the
  construction.
\<close>

theorem treeshake_enabled_unless_false:
  assumes enabled: "options_treeshake options \<noteq> TreeshakeBool False"
  shows "\<exists>t. normalizeTreeshake (options_treeshake options) = Some t
     \<and> (\<forall>g. newGraph options w0 = Inr g \<longrightarrow> treeshakingOptions g = Some t)
     \<and> (\<forall>given. options_treeshake options = TreeshakeObject given \<longrightarrow>
           annotations t = Some (annotations given \<noteq> Some False)
         \<and> propertyReadSideEffects t = Some (propertyReadSideEffects given \<noteq> Some False)
         \<and> tryCatchDeoptimization t = Some (tryCatchDeoptimization given \<noteq> Some False)
         \<and> unknownGlobalSideEffects t = Some (unknownGlobalSideEffects given \<noteq> Some False)
         \<and> treeshake_moduleSideEffects t = treeshake_moduleSideEffects given
         \<and> pureExternalModules t = pureExternalModules given)
     \<and> ((\<forall>given. options_treeshake options \<noteq> TreeshakeObject given) \<longrightarrow>
           annotations t = Some True \<and> propertyReadSideEffects t = Some True
         \<and> tryCatchDeoptimization t = Some True \<and> unknownGlobalSideEffects t = Some True
         \<and> treeshake_moduleSideEffects t = Some (SideEffectsBool True)
         \<and> pureExternalModules t = None)
     \<and> (pureExternalModules t \<noteq> None \<longrightarrow>
           (if options_strictDeprecations options
            then newGraph options w0 = Inl (RollupError (errDeprecation pureExternalModulesDeprecation))
            else \<exists>g. newGraph options w0 = Inr g
                   \<and> warned (world g) = warned w0 @ [errDeprecation pureExternalModulesDeprecation]))
     \<and> (pureExternalModules t = None \<longrightarrow>
           (\<exists>g. newGraph options w0 = Inr g \<and> warned (world g) = warned w0))"
proof -
  obtain t where t: "normalizeTreeshake (options_treeshake options) = Some t"
    using normalizeTreeshake_Some[OF enabled] by blast
  have graph: "\<forall>g. newGraph options w0 = Inr g \<longrightarrow> treeshakingOptions g = Some t"
    using t newGraph_fields by metis
  have object: "\<forall>given. options_treeshake options = TreeshakeObject given \<longrightarrow>
           annotations t = Some (annotations given \<noteq> Some False)
         \<and> propertyReadSideEffects t = Some (propertyReadSideEffects given \<noteq> Some False)
         \<and> tryCatchDeoptimization t = Some (tryCatchDeoptimization given \<noteq> Some False)
         \<and> unknownGlobalSideEffects t = Some (unknownGlobalSideEffects given \<noteq> Some False)
         \<and> treeshake_moduleSideEffects t = treeshake_moduleSideEffects given
         \<and> pureExternalModules t = pureExternalModules given"
    using t by (auto simp: normalizeTreeshake_def)
  have default: "(\<forall>given. options_treeshake options \<noteq> TreeshakeObject given) \<longrightarrow>
           annotations t = Some True \<and> propertyReadSideEffects t = Some True
         \<and> tryCatchDeoptimization t = Some True \<and> unknownGlobalSideEffects t = Some True
         \<and> treeshake_moduleSideEffects t = Some (SideEffectsBool True)
         \<and> pureExternalModules t = None"
    using t by (cases "options_treeshake options") (auto simp: normalizeTreeshake_def split: if_splits)
  have deprecated: "pureExternalModules t \<noteq> None \<longrightarrow>
           (if options_strictDeprecations options
            then newGraph options w0 = Inl (RollupError (errDeprecation pureExternalModulesDeprecation))
            else \<exists>g. newGraph options w0 = Inr g
                   \<and> warned (world g) = warned w0 @ [errDeprecation pureExternalModulesDeprecation])"
    using t
    by (auto simp: newGraph_def checkPureExternalModules_def warnDeprecation_def warn_def Let_def)
  have quiet: "pureExternalModules t = None \<longrightarrow>
           (\<exists>g. newGraph options w0 = Inr g \<and> warned (world g) = warned w0)"
    using t by (auto simp: newGraph_def checkPureExternalModules_def Let_def)
  show ?thesis
    apply (rule exI[of _ t])
    apply (insert t graph object default deprecated quiet)
    apply (intro conjI; assumption)
    done
qed

theorem treeshake_enabled_unless_false_witness:
  "options_treeshake exampleOptions \<noteq> TreeshakeBool False
   \<and> (\<exists>t g. normalizeTreeshake (options_treeshake exampleOptions) = Some t
        \<and> annotations t = Some False \<and> propertyReadSideEffects t = Some True
        \<and> treeshake_moduleSideEffects t = Some NoExternal
        \<and> pureExternalModules t = Some (PureBool True)
        \<and> newGraph exampleOptions emptyWorld = Inr g
        \<and> treeshakingOptions g = Some t
        \<and> warned (world g) = [errDeprecation pureExternalModulesDeprecation])"
proof -
  have enabled: "options_treeshake exampleOptions \<noteq> TreeshakeBool False"
    by (simp add: exampleOptions_def)
  have given: "options_treeshake exampleOptions = TreeshakeObject exampleTreeshake"
    by (simp add: exampleOptions_def)
  have lax: "\<not> options_strictDeprecations exampleOptions"
    by (simp add: exampleOptions_def)
  from treeshake_enabled_unless_false[OF enabled, of emptyWorld] given lax enabled
  show ?thesis
    by (auto simp: exampleTreeshake_def emptyWorld_def)
qed

subsection \<open>The plugin cache\<close>

lemma incrementEntries_map:
  "incrementEntries cache = map (\<lambda>(key, (counter, v)). (key, (counter + 1, v))) cache"
  by (induction cache rule: incrementEntries.induct) simp_all

lemma incrementAccessCounters_map: "incrementAccessCounters pc = countersPlusOne pc"
  by (induction pc rule: incrementAccessCounters.induct)
     (simp_all add: countersPlusOne_def incrementEntries_map)

lemma evictEntries_filter:
  "evictEntries expiry cache = (survivingEntries expiry cache, survivingEntries expiry cache = [])"
  by (induction expiry cache rule: evictEntries.induct)
     (auto simp: survivingEntries_def)

lemma evictPlugins_filter: "evictPlugins expiry pc = snapshotPlugins expiry pc"
  by (induction expiry pc rule: evictPlugins.induct)
     (simp_all add: snapshotPlugins_def evictEntries_filter)

lemma snapshot_sound:
  "(name, kept) \<in> set (snapshotPlugins expiry pc) \<Longrightarrow> (key, (counter, v)) \<in> set kept \<Longrightarrow>
     counter < expiry \<and> (\<exists>cache. (name, cache) \<in> set pc \<and> (key, (counter, v)) \<in> set cache)"
  by (auto simp: snapshotPlugins_def survivingEntries_def)

lemma snapshot_complete:
  assumes "(name, cache) \<in> set pc" and "(key, (counter, v)) \<in> set cache" and "counter < expiry"
  shows "\<exists>kept. (name, kept) \<in> set (snapshotPlugins expiry pc) \<and> (key, (counter, v)) \<in> set kept"
proof -
  let ?kept = "survivingEntries expiry cache"
  have mem: "(key, (counter, v)) \<in> set ?kept"
    using assms(2,3) by (simp add: survivingEntries_def)
  then have "?kept \<noteq> []" by auto
  moreover have "(name, ?kept) \<in> set (map (\<lambda>(name, cache). (name, survivingEntries expiry cache)) pc)"
    using assms(1) by force
  ultimately have "(name, ?kept) \<in> set (snapshotPlugins expiry pc)"
    by (simp add: snapshotPlugins_def)
  with mem show ?thesis by blast
qed

text \<open>
  Claim C6. A graph built with caching enabled (\<^verbatim>\<open>options.cache\<close> is not \<^verbatim>\<open>false\<close>) holds
  the supplied plugin caches with every access counter one higher. When \<^verbatim>\<open>getCache\<close> runs on
  a graph that caches, an entry whose counter is at least \<^verbatim>\<open>cacheExpiry\<close> is gone from the
  result, an entry with a smaller counter is still there, a plugin stays only with the entries
  that survive and only when there is one, and the result holds the serialisation of every module
  of \<^verbatim>\<open>modules\<close>, in order.
\<close>

theorem plugin_cache_counters_and_eviction:
  assumes enabled: "options_cache options \<noteq> CacheBool False"
    and built: "newGraph options w0 = Inr g0"
    and caching: "pluginCache g = Some pc"
  shows "pluginCache g0 = Some (countersPlusOne (suppliedPlugins (options_cache options)))
     \<and> cacheExpiry g0 = options_experimentalCacheExpiry options
     \<and> cache_plugins (fst (getCache env g)) = Some (snapshotPlugins (cacheExpiry g) pc)
     \<and> pluginCache (snd (getCache env g)) = Some (snapshotPlugins (cacheExpiry g) pc)
     \<and> cache_modules (fst (getCache env g)) = Some (map (toJSON env (world g)) (modules g))
     \<and> (\<forall>name cache key counter v.
           (name, cache) \<in> set pc \<and> (key, (counter, v)) \<in> set cache \<longrightarrow>
             (cacheExpiry g \<le> counter \<longrightarrow>
                (\<forall>kept. (name, kept) \<in> set (snapshotPlugins (cacheExpiry g) pc) \<longrightarrow>
                   (key, (counter, v)) \<notin> set kept))
           \<and> (counter < cacheExpiry g \<longrightarrow>
                (\<exists>kept. (name, kept) \<in> set (snapshotPlugins (cacheExpiry g) pc)
                   \<and> (key, (counter, v)) \<in> set kept)))
     \<and> (\<forall>name kept. (name, kept) \<in> set (snapshotPlugins (cacheExpiry g) pc) \<longrightarrow>
           kept \<noteq> []
         \<and> (\<exists>cache. (name, cache) \<in> set pc \<and> kept = survivingEntries (cacheExpiry g) cache))"
proof -
  have counters: "pluginCache g0 = Some (countersPlusOne (suppliedPlugins (options_cache options)))"
    using newGraph_fields[OF built] enabled
    by (simp add: initialPluginCache_def incrementAccessCounters_map)
  have expiry: "cacheExpiry g0 = options_experimentalCacheExpiry options"
    using newGraph_fields[OF built] by simp
  have returned: "cache_plugins (fst (getCache env g)) = Some (snapshotPlugins (cacheExpiry g) pc)"
    using caching by (simp add: getCache_def Let_def evictPlugins_filter)
  have kept: "pluginCache (snd (getCache env g)) = Some (snapshotPlugins (cacheExpiry g) pc)"
    using caching by (simp add: getCache_def Let_def evictPlugins_filter)
  have serialised: "cache_modules (fst (getCache env g)) = Some (map (toJSON env (world g)) (modules g))"
    by (simp add: getCache_def Let_def)
  have entries: "\<forall>name cache key counter v.
           (name, cache) \<in> set pc \<and> (key, (counter, v)) \<in> set cache \<longrightarrow>
             (cacheExpiry g \<le> counter \<longrightarrow>
                (\<forall>kept. (name, kept) \<in> set (snapshotPlugins (cacheExpiry g) pc) \<longrightarrow>
                   (key, (counter, v)) \<notin> set kept))
           \<and> (counter < cacheExpiry g \<longrightarrow>
                (\<exists>kept. (name, kept) \<in> set (snapshotPlugins (cacheExpiry g) pc)
                   \<and> (key, (counter, v)) \<in> set kept))"
    using snapshot_sound snapshot_complete by (metis not_le)
  have plugins: "\<forall>name kept. (name, kept) \<in> set (snapshotPlugins (cacheExpiry g) pc) \<longrightarrow>
           kept \<noteq> []
         \<and> (\<exists>cache. (name, cache) \<in> set pc \<and> kept = survivingEntries (cacheExpiry g) cache)"
    by (auto simp: snapshotPlugins_def)
  show ?thesis
    apply (insert counters expiry returned kept serialised entries plugins)
    apply (intro conjI; assumption)
    done
qed

theorem plugin_cache_counters_and_eviction_witness:
  "options_cache exampleOptions \<noteq> CacheBool False
   \<and> (\<exists>g0. newGraph exampleOptions emptyWorld = Inr g0
        \<and> pluginCache g0 =
            Some [(''p'', [(''k1'', (1, ''a'')), (''k2'', (5, ''b''))]), (''q'', [(''k'', (10, ''c''))])]
        \<and> cache_plugins (fst (getCache exampleEnv g0)) = Some [(''p'', [(''k1'', (1, ''a''))])]
        \<and> cache_modules (fst (getCache exampleEnv g0)) = Some [])"
proof -
  have enabled: "options_cache exampleOptions \<noteq> CacheBool False"
    by (simp add: exampleOptions_def)
  obtain g0 where built: "newGraph exampleOptions emptyWorld = Inr g0"
    by (simp add: newGraph_def exampleOptions_def exampleTreeshake_def normalizeTreeshake_def
        checkPureExternalModules_def warnDeprecation_def Let_def)
  have supplied: "pluginCache g0 =
      Some [(''p'', [(''k1'', (1, ''a'')), (''k2'', (5, ''b''))]), (''q'', [(''k'', (10, ''c''))])]"
    using newGraph_fields[OF built]
    by (simp add: exampleOptions_def initialPluginCache_def suppliedPlugins_def)
  have expiry: "cacheExpiry g0 = 5"
    using newGraph_fields[OF built] by (simp add: exampleOptions_def)
  have none: "modules g0 = []"
    using built by (auto simp: newGraph_def Let_def split: sum.splits)
  from plugin_cache_counters_and_eviction[OF enabled built supplied, of exampleEnv]
  have "cache_plugins (fst (getCache exampleEnv g0)) = Some [(''p'', [(''k1'', (1, ''a''))])]
      \<and> cache_modules (fst (getCache exampleEnv g0)) = Some []"
    by (simp add: expiry none snapshotPlugins_def survivingEntries_def)
  with enabled built supplied show ?thesis by blast
qed

subsection \<open>\<^verbatim>\<open>getModuleInfo\<close>\<close>

lemma collectImportedIds_resolved:
  "set srcs \<subseteq> fst ` set rids \<Longrightarrow>
     collectImportedIds rids srcs = Inr (map (\<lambda>source. the (map_of rids source)) srcs)"
proof (induction srcs)
  case Nil
  then show ?case by simp
next
  case (Cons s srcs)
  then have "s \<in> fst ` set rids" by simp
  then obtain i where "map_of rids s = Some i"
    by (cases "map_of rids s") (auto simp: map_of_eq_None_iff)
  with Cons show ?case by simp
qed

lemma collectImportedIds_error:
  "collectImportedIds rids srcs = Inl e \<Longrightarrow> \<exists>msg. e = TypeError msg"
  by (induction srcs arbitrary: e) (auto split: option.splits sum.splits)

text \<open>
  Where \<^verbatim>\<open>getModuleInfo\<close> does what is expected of it. It throws the error
  \<^verbatim>\<open>Unable to find module\<close> exactly when the id is not a key of \<^verbatim>\<open>moduleById\<close>. For
  the id of an external module, and for the id of a module every source of which has an entry in
  \<^verbatim>\<open>resolvedIds\<close>, it returns the projection with the fields of the object. It is a function
  of the graph and returns nothing but the projection or the error, so the graph stays as it is.
\<close>

lemma getModuleInfo_projection:
  "(getModuleInfo g moduleId = Inl (Error (''Unable to find module '' @ moduleId)))
     = (map_of (moduleById g) moduleId = None)
   \<and> (\<forall>e. getModuleInfo g moduleId = Inl (Error e) \<longrightarrow> map_of (moduleById g) moduleId = None)
   \<and> (\<forall>m. map_of (moduleById g) moduleId = Some (ModuleRef m)
          \<and> set (sources (moduleObjs (world g) m)) \<subseteq> fst ` set (resolvedIds (moduleObjs (world g) m))
        \<longrightarrow> getModuleInfo g moduleId =
              Inr \<lparr>dynamicallyImportedIds =
                     collectDynamicallyImportedIds (world g) (dynamicImports (moduleObjs (world g) m)),
                   info_dynamicImporters = dynamicImporters (moduleObjs (world g) m),
                   hasModuleSideEffects = moduleSideEffects (moduleObjs (world g) m),
                   info_id = module_id (moduleObjs (world g) m),
                   importedIds =
                     map (\<lambda>source. the (map_of (resolvedIds (moduleObjs (world g) m)) source))
                       (sources (moduleObjs (world g) m)),
                   info_importers = importers (moduleObjs (world g) m),
                   isEntry = isEntryPoint (moduleObjs (world g) m),
                   isExternal = False\<rparr>)
   \<and> (\<forall>x. map_of (moduleById g) moduleId = Some (ExternalModuleRef x)
        \<longrightarrow> getModuleInfo g moduleId =
              Inr \<lparr>dynamicallyImportedIds = [],
                   info_dynamicImporters = external_dynamicImporters (externalObjs (world g) x),
                   hasModuleSideEffects = external_moduleSideEffects (externalObjs (world g) x),
                   info_id = external_id (externalObjs (world g) x),
                   importedIds = [],
                   info_importers = external_importers (externalObjs (world g) x),
                   isEntry = False,
                   isExternal = True\<rparr>)"
proof -
  have known: "getModuleInfo g moduleId \<noteq> Inl (Error e)"
    if "map_of (moduleById g) moduleId = Some r" for r e
  proof (cases r)
    case (ModuleRef m)
    show ?thesis
    proof
      assume bad: "getModuleInfo g moduleId = Inl (Error e)"
      then have "collectImportedIds (resolvedIds (moduleObjs (world g) m))
          (sources (moduleObjs (world g) m)) = Inl (Error e)"
        using that ModuleRef by (simp add: getModuleInfo_def Let_def split: sum.splits)
      then show False using collectImportedIds_error by blast
    qed
  next
    case (ExternalModuleRef x)
    then show ?thesis using that by (simp add: getModuleInfo_def Let_def)
  qed
  have unknown: "getModuleInfo g moduleId = Inl (Error (''Unable to find module '' @ moduleId))"
    if "map_of (moduleById g) moduleId = None"
    using that by (simp add: getModuleInfo_def)
  have exactly: "(getModuleInfo g moduleId = Inl (Error (''Unable to find module '' @ moduleId)))
     = (map_of (moduleById g) moduleId = None)"
    using known unknown by (cases "map_of (moduleById g) moduleId") auto
  have only: "\<forall>e. getModuleInfo g moduleId = Inl (Error e) \<longrightarrow> map_of (moduleById g) moduleId = None"
    using known by (cases "map_of (moduleById g) moduleId") auto
  have internal: "\<forall>m. map_of (moduleById g) moduleId = Some (ModuleRef m)
          \<and> set (sources (moduleObjs (world g) m)) \<subseteq> fst ` set (resolvedIds (moduleObjs (world g) m))
        \<longrightarrow> getModuleInfo g moduleId =
              Inr \<lparr>dynamicallyImportedIds =
                     collectDynamicallyImportedIds (world g) (dynamicImports (moduleObjs (world g) m)),
                   info_dynamicImporters = dynamicImporters (moduleObjs (world g) m),
                   hasModuleSideEffects = moduleSideEffects (moduleObjs (world g) m),
                   info_id = module_id (moduleObjs (world g) m),
                   importedIds =
                     map (\<lambda>source. the (map_of (resolvedIds (moduleObjs (world g) m)) source))
                       (sources (moduleObjs (world g) m)),
                   info_importers = importers (moduleObjs (world g) m),
                   isEntry = isEntryPoint (moduleObjs (world g) m),
                   isExternal = False\<rparr>"
    by (simp add: getModuleInfo_def Let_def collectImportedIds_resolved)
  have external: "\<forall>x. map_of (moduleById g) moduleId = Some (ExternalModuleRef x)
        \<longrightarrow> getModuleInfo g moduleId =
              Inr \<lparr>dynamicallyImportedIds = [],
                   info_dynamicImporters = external_dynamicImporters (externalObjs (world g) x),
                   hasModuleSideEffects = external_moduleSideEffects (externalObjs (world g) x),
                   info_id = external_id (externalObjs (world g) x),
                   importedIds = [],
                   info_importers = external_importers (externalObjs (world g) x),
                   isEntry = False,
                   isExternal = True\<rparr>"
    by (simp add: getModuleInfo_def Let_def)
  show ?thesis
    apply (insert exactly only internal external)
    apply (intro conjI; assumption)
    done
qed

lemma getModuleInfo_projection_example:
  "getModuleInfo exampleGraph ''a.js'' =
     Inr \<lparr>dynamicallyImportedIds = [''b.js'', ''ext''],
          info_dynamicImporters = [''b.js''],
          hasModuleSideEffects = True,
          info_id = ''a.js'',
          importedIds = [''b.js''],
          info_importers = [],
          isEntry = True,
          isExternal = False\<rparr>
   \<and> isExternal (projr (getModuleInfo exampleGraph ''ext''))
   \<and> getModuleInfo exampleGraph ''c.js'' = Inl (Error ''Unable to find module c.js'')"
proof -
  have a: "map_of (moduleById exampleGraph) ''a.js'' = Some (ModuleRef 0)
      \<and> set (sources (moduleObjs (world exampleGraph) 0))
          \<subseteq> fst ` set (resolvedIds (moduleObjs (world exampleGraph) 0))"
    by (simp add: exampleGraph_def exampleWorld_def moduleA_def)
  have ext: "map_of (moduleById exampleGraph) ''ext'' = Some (ExternalModuleRef 0)"
    by (simp add: exampleGraph_def)
  have c: "map_of (moduleById exampleGraph) ''c.js'' = None"
    by (simp add: exampleGraph_def)
  have first: "getModuleInfo exampleGraph ''a.js'' =
     Inr \<lparr>dynamicallyImportedIds = [''b.js'', ''ext''],
          info_dynamicImporters = [''b.js''],
          hasModuleSideEffects = True,
          info_id = ''a.js'',
          importedIds = [''b.js''],
          info_importers = [],
          isEntry = True,
          isExternal = False\<rparr>"
    using getModuleInfo_projection[of exampleGraph "''a.js''"] a
    by (simp add: exampleGraph_def exampleWorld_def moduleA_def moduleB_def externalE_def)
  have second: "isExternal (projr (getModuleInfo exampleGraph ''ext''))"
    using getModuleInfo_projection[of exampleGraph "''ext''"] ext by simp
  have third: "getModuleInfo exampleGraph ''c.js'' = Inl (Error ''Unable to find module c.js'')"
    using getModuleInfo_projection[of exampleGraph "''c.js''"] c by simp
  from first second third show ?thesis by blast
qed

text \<open>
  Claim C8. \<^verbatim>\<open>getModuleInfo\<close> is to throw exactly when the id is not a key of
  \<^verbatim>\<open>moduleById\<close> and to return the projection of the module for every id that is. The code
  does not: for a module that is known and has a source without an entry in \<^verbatim>\<open>resolvedIds\<close>,
  as a module has while its imports are being resolved, line 257 reads \<^verbatim>\<open>.id\<close> of
  \<^verbatim>\<open>undefined\<close> and the call ends in a TypeError. The loop over the dynamic imports next to it
  does guard its read. Here the id \<^verbatim>\<open>a.js\<close> is a key, and there is no projection.
\<close>

theorem getModuleInfo_unresolved_source:
  "map_of (moduleById unresolvedGraph) ''a.js'' = Some (ModuleRef 0)
   \<and> sources (moduleObjs (world unresolvedGraph) 0) = [''./b'']
   \<and> resolvedIds (moduleObjs (world unresolvedGraph) 0) = []
   \<and> getModuleInfo unresolvedGraph ''a.js'' =
       Inl (TypeError ''foundModule.resolvedIds[source] is undefined'')"
  by (simp add: unresolvedGraph_def unresolvedModuleA_def exampleGraph_def exampleWorld_def
      moduleA_def getModuleInfo_def)

subsection \<open>\<^verbatim>\<open>build\<close> without entry modules\<close>

text \<open>
  Claim C9. When the module loader resolves with no entry module, as it does for an empty
  \<^verbatim>\<open>input\<close>, \<^verbatim>\<open>parseModules\<close> throws and so \<^verbatim>\<open>build\<close> fails: it returns an error and no
  list of chunks. When no manual chunks are given, so that nothing else can throw before, the
  error is \<^verbatim>\<open>You must supply options.input to rollup\<close>.
\<close>

theorem build_fails_without_entry_modules:
  assumes loaded: "addEntryModules env (normalizeEntryModules entryModuleIds) True g =
                     Inr (([], byAlias), g1)"
  shows "\<exists>e. parseModules env entryModuleIds manualChunks g = Inl e
     \<and> build env entryModuleIds manualChunks inlineDynamicImports g = Some (Inl e)
     \<and> (manualChunks = ManualChunksVoid \<longrightarrow> e = Error ''You must supply options.input to rollup'')"
proof -
  have "\<exists>e. parseModules env entryModuleIds manualChunks g = Inl e
      \<and> (manualChunks = ManualChunksVoid \<longrightarrow> e = Error ''You must supply options.input to rollup'')"
    using loaded
    by (cases manualChunks) (auto simp: parseModules_def split: sum.splits)
  then obtain e where parse: "parseModules env entryModuleIds manualChunks g = Inl e"
    and which: "manualChunks = ManualChunksVoid \<longrightarrow> e = Error ''You must supply options.input to rollup''"
    by blast
  have "build env entryModuleIds manualChunks inlineDynamicImports g = Some (Inl e)"
    using parse by (simp add: build_def)
  with parse which show ?thesis by blast
qed

theorem build_fails_without_entry_modules_witness:
  "normalizeEntryModules (EntryArray []) = []
   \<and> addEntryModules exampleEnv (normalizeEntryModules (EntryArray [])) True exampleGraph =
       Inr (([], []), exampleGraph)
   \<and> build exampleEnv (EntryArray []) ManualChunksVoid False exampleGraph =
       Some (Inl (Error ''You must supply options.input to rollup''))"
proof -
  have empty: "normalizeEntryModules (EntryArray []) = []"
    by (simp add: normalizeEntryModules_def)
  have loaded: "addEntryModules exampleEnv (normalizeEntryModules (EntryArray [])) True exampleGraph =
      Inr (([], []), exampleGraph)"
    by (simp add: empty exampleEnv_def)
  from build_fails_without_entry_modules[OF loaded, of ManualChunksVoid False]
  have "build exampleEnv (EntryArray []) ManualChunksVoid False exampleGraph =
      Some (Inl (Error ''You must supply options.input to rollup''))"
    by auto
  with empty loaded show ?thesis by blast
qed

subsection \<open>Warnings in the log\<close>

lemma fold_keeps:
  assumes "\<And>x w. obs (f x w) = obs w"
  shows "obs (fold f xs w) = obs w"
  using assms by (induction xs arbitrary: w) simp_all

lemma warnedWith_warn:
  "warnedWith c (warn x w) = warnedWith c w @ (if code x = c then [x] else [])"
  by (simp add: warnedWith_def warn_def)

lemma warnedWith_module_warn:
  "warnedWith c (module_warn m x pos w) = warnedWith c w
     @ (if code x = c
        then [x\<lparr>warning_id := Some (module_id (moduleObjs w m)), warning_pos := Some pos\<rparr>]
        else [])"
  by (simp add: module_warn_def warnedWith_warn)

lemma warnForImport_steps:
  "warnForImport env shim m entry w =
     (if isMissingExport env shim (snd entry) w
      then module_warn m (nonExistentExportWarning env (afterLookup env shim (snd entry) w) (snd entry))
             (import_start (snd entry)) (afterLookup env shim (snd entry) w)
      else afterLookup env shim (snd entry) w)"
  by (simp add: warnForImport_def isMissingExport_def afterLookup_def Let_def split: prod.splits)

lemma warnForImport_other:
  assumes "c \<noteq> ''NON_EXISTENT_EXPORT''"
    and "\<And>r n w. warnedWith c (snd (getVariableForExportName env shim r n w)) = warnedWith c w"
  shows "warnedWith c (warnForImport env shim m entry w) = warnedWith c w"
  using assms
  by (simp add: warnForImport_steps afterLookup_def warnedWith_module_warn
      nonExistentExportWarning_def)

subsection \<open>\<^verbatim>\<open>link\<close>: circular dependencies\<close>

lemma warnForMissingExports_other:
  assumes other: "c \<noteq> ''NON_EXISTENT_EXPORT''"
    and looking: "\<And>shim r n w.
        warnedWith c (snd (getVariableForExportName env shim r n w)) = warnedWith c w"
  shows "warnedWith c (world (warnForMissingExports env g)) = warnedWith c (world g)"
proof -
  let ?shim = "shimMissingExports g"
  have inner: "warnedWith c
      (fold (warnForImport env ?shim m) (importDescriptions (moduleObjs w m)) w) = warnedWith c w"
    for m w
    by (rule fold_keeps[where obs = "warnedWith c" and f = "warnForImport env ?shim m"])
       (rule warnForImport_other[OF other looking])
  have "warnedWith c
      (fold (\<lambda>m w. fold (warnForImport env ?shim m) (importDescriptions (moduleObjs w m)) w)
         (modules g) (world g)) = warnedWith c (world g)"
    by (rule fold_keeps[where obs = "warnedWith c"
          and f = "\<lambda>m w. fold (warnForImport env ?shim m) (importDescriptions (moduleObjs w m)) w"])
       (rule inner)
  then show ?thesis by (simp add: warnForMissingExports_def)
qed

lemma fold_circular_warnings:
  "warnedWith ''CIRCULAR_DEPENDENCY''
     (fold (\<lambda>cyclePath. warn (circularDependencyWarning cyclePath)) cyclePaths w) =
   warnedWith ''CIRCULAR_DEPENDENCY'' w @ map circularDependencyWarning cyclePaths"
  by (induction cyclePaths arbitrary: w)
     (simp_all add: warnedWith_warn circularDependencyWarning_def)

text \<open>
  Claim C5. \<^verbatim>\<open>link\<close> hands \<^verbatim>\<open>onwarn\<close> one warning with code \<^verbatim>\<open>CIRCULAR_DEPENDENCY\<close> for
  each cycle path that the execution-order analysis returns, in their order, with the whole path
  as \<^verbatim>\<open>cycle\<close> and its first element as \<^verbatim>\<open>importer\<close>; a path of one element gives a warning
  like any other. \<^verbatim>\<open>link\<close> does not fail, and the order that the analysis returns becomes
  \<^verbatim>\<open>modules\<close>. The methods of the modules, the lookup of an export and the analysis are
  taken to emit and to remove no warning of this code themselves.
\<close>

theorem link_warns_once_per_cycle:
  assumes linking: "\<And>m w. warnedWith ''CIRCULAR_DEPENDENCY'' (linkDependencies env m w) =
                      warnedWith ''CIRCULAR_DEPENDENCY'' w"
    and analysing: "\<And>ms w. warnedWith ''CIRCULAR_DEPENDENCY'' (snd (analyseModuleExecution env ms w)) =
                      warnedWith ''CIRCULAR_DEPENDENCY'' w"
    and binding: "\<And>m w. warnedWith ''CIRCULAR_DEPENDENCY'' (bindReferences env m w) =
                      warnedWith ''CIRCULAR_DEPENDENCY'' w"
    and looking: "\<And>shim r n w.
        warnedWith ''CIRCULAR_DEPENDENCY'' (snd (getVariableForExportName env shim r n w)) =
          warnedWith ''CIRCULAR_DEPENDENCY'' w"
    and analysis: "analyseModuleExecution env entries
                     (fold (linkDependencies env) (modules g) (world g)) = ((ordered, cyclePaths), w2)"
  shows "warnedWith ''CIRCULAR_DEPENDENCY'' (world (link env entries g)) =
           warnedWith ''CIRCULAR_DEPENDENCY'' (world g) @ map circularDependencyWarning cyclePaths
     \<and> modules (link env entries g) = ordered
     \<and> map code (map circularDependencyWarning cyclePaths) =
         replicate (length cyclePaths) ''CIRCULAR_DEPENDENCY''
     \<and> map cycle (map circularDependencyWarning cyclePaths) = map Some cyclePaths
     \<and> map importer (map circularDependencyWarning cyclePaths) =
         map (\<lambda>cyclePath. case cyclePath of [] \<Rightarrow> None | first # _ \<Rightarrow> Some first) cyclePaths"
proof -
  let ?C = "''CIRCULAR_DEPENDENCY''"
  let ?w1 = "fold (linkDependencies env) (modules g) (world g)"
  let ?w3 = "fold (\<lambda>cyclePath. warn (circularDependencyWarning cyclePath)) cyclePaths w2"
  let ?w4 = "fold (bindReferences env) ordered ?w3"
  have unfold: "link env entries g = warnForMissingExports env (g\<lparr>world := ?w4, modules := ordered\<rparr>)"
    using analysis by (simp add: link_def Let_def)
  have w1: "warnedWith ?C ?w1 = warnedWith ?C (world g)"
    by (rule fold_keeps[where obs = "warnedWith ?C" and f = "linkDependencies env"])
       (rule linking)
  have w2: "warnedWith ?C w2 = warnedWith ?C ?w1"
    using analysing[of entries ?w1] analysis by simp
  have w3: "warnedWith ?C ?w3 = warnedWith ?C w2 @ map circularDependencyWarning cyclePaths"
    by (rule fold_circular_warnings)
  have w4: "warnedWith ?C ?w4 = warnedWith ?C ?w3"
    by (rule fold_keeps[where obs = "warnedWith ?C" and f = "bindReferences env"])
       (rule binding)
  have "warnedWith ?C (world (link env entries g)) = warnedWith ?C ?w4"
    unfolding unfold
    using warnForMissingExports_other[where c = ?C and env = env] looking by simp
  then have log: "warnedWith ?C (world (link env entries g)) =
      warnedWith ?C (world g) @ map circularDependencyWarning cyclePaths"
    using w1 w2 w3 w4 by simp
  have stored: "modules (link env entries g) = ordered"
    unfolding unfold by (simp add: warnForMissingExports_def)
  have codes: "map code (map circularDependencyWarning cyclePaths) =
      replicate (length cyclePaths) ?C"
    by (induction cyclePaths) (simp_all add: circularDependencyWarning_def)
  have cycles: "map cycle (map circularDependencyWarning cyclePaths) = map Some cyclePaths"
    by (simp add: circularDependencyWarning_def comp_def)
  have importers: "map importer (map circularDependencyWarning cyclePaths) =
      map (\<lambda>cyclePath. case cyclePath of [] \<Rightarrow> None | first # _ \<Rightarrow> Some first) cyclePaths"
    by (simp add: circularDependencyWarning_def comp_def)
  show ?thesis
    apply (insert log stored codes cycles importers)
    apply (intro conjI; assumption)
    done
qed

theorem link_warns_once_per_cycle_witness:
  "analyseModuleExecution exampleEnv [0]
     (fold (linkDependencies exampleEnv) (modules exampleGraph) (world exampleGraph)) =
       (([0], [[''a.js'']]), exampleWorld)
   \<and> warnedWith ''CIRCULAR_DEPENDENCY'' (world (link exampleEnv [0] exampleGraph)) =
       [circularDependencyWarning [''a.js'']]
   \<and> cycle (circularDependencyWarning [''a.js'']) = Some [''a.js'']
   \<and> importer (circularDependencyWarning [''a.js'']) = Some ''a.js''
   \<and> message (circularDependencyWarning [''a.js'', ''b.js'', ''a.js'']) =
       ''Circular dependency: a.js -> b.js -> a.js''
   \<and> modules (link exampleEnv [0] exampleGraph) = [0]"
proof -
  have linking: "\<And>m w. warnedWith ''CIRCULAR_DEPENDENCY'' (linkDependencies exampleEnv m w) =
      warnedWith ''CIRCULAR_DEPENDENCY'' w"
    by (simp add: exampleEnv_def)
  have analysing: "\<And>ms w.
      warnedWith ''CIRCULAR_DEPENDENCY'' (snd (analyseModuleExecution exampleEnv ms w)) =
      warnedWith ''CIRCULAR_DEPENDENCY'' w"
    by (simp add: exampleEnv_def)
  have binding: "\<And>m w. warnedWith ''CIRCULAR_DEPENDENCY'' (bindReferences exampleEnv m w) =
      warnedWith ''CIRCULAR_DEPENDENCY'' w"
    by (simp add: exampleEnv_def)
  have looking: "\<And>shim r n w.
      warnedWith ''CIRCULAR_DEPENDENCY'' (snd (getVariableForExportName exampleEnv shim r n w)) =
        warnedWith ''CIRCULAR_DEPENDENCY'' w"
    by (simp add: exampleEnv_def warnedWith_def warn_def plainWarning_def)
  have analysis: "analyseModuleExecution exampleEnv [0]
     (fold (linkDependencies exampleEnv) (modules exampleGraph) (world exampleGraph)) =
       (([0], [[''a.js'']]), exampleWorld)"
    by (simp add: exampleEnv_def exampleGraph_def)
  have before: "warnedWith ''CIRCULAR_DEPENDENCY'' (world exampleGraph) = []"
    by (simp add: warnedWith_def exampleGraph_def exampleWorld_def)
  from link_warns_once_per_cycle[where env = exampleEnv and g = exampleGraph,
      OF linking analysing binding looking analysis]
  have "warnedWith ''CIRCULAR_DEPENDENCY'' (world (link exampleEnv [0] exampleGraph)) =
       [circularDependencyWarning [''a.js'']]
     \<and> modules (link exampleEnv [0] exampleGraph) = [0]"
    by (simp add: before)
  moreover have "cycle (circularDependencyWarning [''a.js'']) = Some [''a.js'']
     \<and> importer (circularDependencyWarning [''a.js'']) = Some ''a.js''
     \<and> message (circularDependencyWarning [''a.js'', ''b.js'', ''a.js'']) =
         ''Circular dependency: a.js -> b.js -> a.js''"
    by (simp add: circularDependencyWarning_def)
  ultimately show ?thesis using analysis by blast
qed

subsection \<open>\<^verbatim>\<open>warnForMissingExports\<close>\<close>

lemma warnForImport_missing:
  assumes "\<And>r n w. warnedWith ''NON_EXISTENT_EXPORT'' (snd (getVariableForExportName env shim r n w)) =
             warnedWith ''NON_EXISTENT_EXPORT'' w"
  shows "warnedWith ''NON_EXISTENT_EXPORT'' (warnForImport env shim m entry w) =
     warnedWith ''NON_EXISTENT_EXPORT'' w
     @ (if isMissingExport env shim (snd entry) w
        then [missingExportWarning env (afterLookup env shim (snd entry) w) m (snd entry)]
        else [])"
proof -
  have after: "warnedWith ''NON_EXISTENT_EXPORT'' (afterLookup env shim (snd entry) w) =
      warnedWith ''NON_EXISTENT_EXPORT'' w"
    using assms by (simp add: afterLookup_def)
  have code: "code (nonExistentExportWarning env w' d) = ''NON_EXISTENT_EXPORT''" for w' d
    by (simp add: nonExistentExportWarning_def)
  show ?thesis
    by (simp add: warnForImport_steps warnedWith_module_warn code after missingExportWarning_def)
qed

lemma fold_warnForImport_missing:
  assumes frame: "\<And>r n w. warnedWith ''NON_EXISTENT_EXPORT'' (snd (getVariableForExportName env shim r n w)) =
             warnedWith ''NON_EXISTENT_EXPORT'' w"
  shows "warnedWith ''NON_EXISTENT_EXPORT'' (fold (warnForImport env shim m) entries w) =
     warnedWith ''NON_EXISTENT_EXPORT'' w @ missingImportWarnings env shim m entries w"
proof (induction entries arbitrary: w)
  case Nil
  then show ?case by simp
next
  case (Cons entry rest)
  have "warnedWith ''NON_EXISTENT_EXPORT'' (fold (warnForImport env shim m) (entry # rest) w) =
      warnedWith ''NON_EXISTENT_EXPORT'' (warnForImport env shim m entry w)
      @ missingImportWarnings env shim m rest (warnForImport env shim m entry w)"
    using Cons.IH[of "warnForImport env shim m entry w"] by simp
  then show ?case
    using warnForImport_missing[where env = env and shim = shim and m = m and entry = entry and w = w]
      frame by simp
qed

lemma fold_modules_missing:
  assumes frame: "\<And>r n w. warnedWith ''NON_EXISTENT_EXPORT'' (snd (getVariableForExportName env shim r n w)) =
             warnedWith ''NON_EXISTENT_EXPORT'' w"
  shows "warnedWith ''NON_EXISTENT_EXPORT''
       (fold (\<lambda>m w. fold (warnForImport env shim m) (importDescriptions (moduleObjs w m)) w) ms w) =
     warnedWith ''NON_EXISTENT_EXPORT'' w @ missingExportWarnings env shim ms w"
proof (induction ms arbitrary: w)
  case Nil
  then show ?case by simp
next
  case (Cons m ms)
  let ?w1 = "fold (warnForImport env shim m) (importDescriptions (moduleObjs w m)) w"
  have "warnedWith ''NON_EXISTENT_EXPORT''
       (fold (\<lambda>m w. fold (warnForImport env shim m) (importDescriptions (moduleObjs w m)) w)
          (m # ms) w) =
      warnedWith ''NON_EXISTENT_EXPORT'' ?w1 @ missingExportWarnings env shim ms ?w1"
    using Cons.IH[of ?w1] by simp
  moreover have "warnedWith ''NON_EXISTENT_EXPORT'' ?w1 =
      warnedWith ''NON_EXISTENT_EXPORT'' w
      @ missingImportWarnings env shim m (importDescriptions (moduleObjs w m)) w"
    using fold_warnForImport_missing[where env = env and shim = shim and m = m and w = w
        and entries = "importDescriptions (moduleObjs w m)"] frame by blast
  ultimately show ?case by simp
qed

lemma missingExportWarning_fields:
  "code (missingExportWarning env w m d) = ''NON_EXISTENT_EXPORT''
   \<and> warning_name (missingExportWarning env w m d) = Some (import_name d)
   \<and> warning_source (missingExportWarning env w m d) = Some (producerId w (import_module d))
   \<and> warning_id (missingExportWarning env w m d) = Some (module_id (moduleObjs w m))
   \<and> warning_pos (missingExportWarning env w m d) = Some (import_start d)"
  by (simp add: missingExportWarning_def nonExistentExportWarning_def)

lemma missingImportWarnings_named:
  "x \<in> set (missingImportWarnings env shim m entries w) \<Longrightarrow>
     code x = ''NON_EXISTENT_EXPORT'' \<and> warning_name x \<noteq> Some ''*''"
proof (induction entries arbitrary: w)
  case Nil
  then show ?case by simp
next
  case (Cons entry rest)
  from Cons.prems consider
    (head) "isMissingExport env shim (snd entry) w"
      "x = missingExportWarning env (afterLookup env shim (snd entry) w) m (snd entry)"
    | (tail) "x \<in> set (missingImportWarnings env shim m rest (warnForImport env shim m entry w))"
    by (auto split: if_splits)
  then show ?case
  proof cases
    case head
    then show ?thesis
      using missingExportWarning_fields[of env "afterLookup env shim (snd entry) w" m "snd entry"]
      by (simp add: isMissingExport_def)
  next
    case tail
    then show ?thesis using Cons.IH by blast
  qed
qed

lemma missingExportWarnings_named:
  "x \<in> set (missingExportWarnings env shim ms w) \<Longrightarrow>
     code x = ''NON_EXISTENT_EXPORT'' \<and> warning_name x \<noteq> Some ''*''"
proof (induction ms arbitrary: w)
  case Nil
  then show ?case by simp
next
  case (Cons m ms)
  let ?entries = "importDescriptions (moduleObjs w m)"
  from Cons.prems consider
    (first) "x \<in> set (missingImportWarnings env shim m ?entries w)"
    | (rest) "x \<in> set (missingExportWarnings env shim ms (fold (warnForImport env shim m) ?entries w))"
    by auto
  then show ?case
  proof cases
    case first
    then show ?thesis by (rule missingImportWarnings_named)
  next
    case rest
    then show ?thesis by (rule Cons.IH)
  qed
qed

lemma missingImportWarnings_found:
  assumes "\<And>r n w. fst (getVariableForExportName env shim r n w)"
  shows "missingImportWarnings env shim m entries w = []"
  using assms by (induction entries arbitrary: w) (simp_all add: isMissingExport_def)

lemma missingExportWarnings_found:
  assumes "\<And>r n w. fst (getVariableForExportName env shim r n w)"
  shows "missingExportWarnings env shim ms w = []"
  using assms missingImportWarnings_found[where env = env and shim = shim]
  by (induction ms arbitrary: w) simp_all

lemma sameLinks_refl: "sameLinks w w"
  by (simp add: sameLinks_def)

lemma sameLinks_trans: "sameLinks w w1 \<Longrightarrow> sameLinks w1 w2 \<Longrightarrow> sameLinks w w2"
  by (simp add: sameLinks_def)

lemma sameLinks_module_warn: "sameLinks w (module_warn m x pos w)"
  by (simp add: sameLinks_def module_warn_def warn_def)

lemma sameLinks_producerId: "sameLinks w w' \<Longrightarrow> producerId w' r = producerId w r"
  by (cases r) (simp_all add: sameLinks_def producerId_def)

lemma sameLinks_warning:
  "sameLinks w w' \<Longrightarrow> missingExportWarning env w' m d = missingExportWarning env w m d"
  by (simp add: missingExportWarning_def nonExistentExportWarning_def sameLinks_producerId)
     (simp add: sameLinks_def)

lemma sameLinks_afterLookup:
  assumes "\<And>r n w. sameLinks w (snd (getVariableForExportName env shim r n w))"
  shows "sameLinks w (afterLookup env shim d w)"
  using assms by (simp add: afterLookup_def sameLinks_refl)

lemma sameLinks_warnForImport:
  assumes "\<And>r n w. sameLinks w (snd (getVariableForExportName env shim r n w))"
  shows "sameLinks w (warnForImport env shim m entry w)"
  using sameLinks_afterLookup[where env = env and shim = shim, OF assms]
    sameLinks_module_warn sameLinks_trans
  by (simp add: warnForImport_steps) blast

lemma sameLinks_fold_warnForImport:
  assumes "\<And>r n w. sameLinks w (snd (getVariableForExportName env shim r n w))"
  shows "sameLinks w (fold (warnForImport env shim m) entries w)"
proof (induction entries arbitrary: w)
  case Nil
  then show ?case by (simp add: sameLinks_refl)
next
  case (Cons entry rest)
  have "sameLinks w (warnForImport env shim m entry w)"
    using sameLinks_warnForImport[where env = env and shim = shim] assms by blast
  moreover have "sameLinks (warnForImport env shim m entry w)
      (fold (warnForImport env shim m) rest (warnForImport env shim m entry w))"
    by (rule Cons.IH)
  ultimately have "sameLinks w
      (fold (warnForImport env shim m) rest (warnForImport env shim m entry w))"
    using sameLinks_trans by blast
  then show ?case by simp
qed

lemma missingImportWarnings_none:
  assumes none: "\<And>r n w. \<not> fst (getVariableForExportName env shim r n w)"
    and links: "\<And>r n w. sameLinks w (snd (getVariableForExportName env shim r n w))"
    and same: "sameLinks start w"
  shows "missingImportWarnings env shim m entries w =
     map (missingExportWarning env start m) (filter (\<lambda>d. import_name d \<noteq> ''*'') (map snd entries))"
  using same
proof (induction entries arbitrary: w)
  case Nil
  then show ?case by simp
next
  case (Cons entry rest)
  have next_world: "sameLinks start (warnForImport env shim m entry w)"
    using Cons.prems sameLinks_warnForImport[where env = env and shim = shim] links sameLinks_trans
    by blast
  have after: "sameLinks start (afterLookup env shim (snd entry) w)"
    using Cons.prems sameLinks_afterLookup[where env = env and shim = shim] links sameLinks_trans
    by blast
  have missing: "isMissingExport env shim (snd entry) w \<longleftrightarrow> import_name (snd entry) \<noteq> ''*''"
    using none by (simp add: isMissingExport_def)
  show ?case
    using Cons.IH[OF next_world] sameLinks_warning[OF after, of env m "snd entry"] missing by simp
qed

lemma missingExportWarnings_none:
  assumes none: "\<And>r n w. \<not> fst (getVariableForExportName env shim r n w)"
    and links: "\<And>r n w. sameLinks w (snd (getVariableForExportName env shim r n w))"
    and same: "sameLinks start w"
  shows "missingExportWarnings env shim ms w = allNamedImportWarnings env ms start"
  using same
proof (induction ms arbitrary: w)
  case Nil
  then show ?case by (simp add: allNamedImportWarnings_def)
next
  case (Cons m ms)
  let ?entries = "importDescriptions (moduleObjs w m)"
  let ?w1 = "fold (warnForImport env shim m) ?entries w"
  have entries: "?entries = importDescriptions (moduleObjs start m)"
    using Cons.prems by (simp add: sameLinks_def)
  have "sameLinks w ?w1"
    using sameLinks_fold_warnForImport[where env = env and shim = shim] links by blast
  with Cons.prems have "sameLinks start ?w1" using sameLinks_trans by blast
  then have rest: "missingExportWarnings env shim ms ?w1 = allNamedImportWarnings env ms start"
    by (rule Cons.IH)
  have first: "missingImportWarnings env shim m ?entries w =
      map (missingExportWarning env start m) (filter (\<lambda>d. import_name d \<noteq> ''*'') (map snd ?entries))"
    by (rule missingImportWarnings_none[where env = env and shim = shim, OF none links Cons.prems])
  show ?case
    using first rest entries by (simp add: allNamedImportWarnings_def)
qed

text \<open>
  Claim C7. \<^verbatim>\<open>warnForMissingExports\<close> goes through the modules of \<^verbatim>\<open>modules\<close> and the import
  descriptions of each. For a description whose name is not \<^verbatim>\<open>*\<close> it asks the producing
  module for the variable of that name, and when there is none it hands \<^verbatim>\<open>onwarn\<close> one warning
  with code \<^verbatim>\<open>NON_EXISTENT_EXPORT\<close>, the name of the import and the id of the producing module;
  for a namespace import it neither asks nor warns. So when no producing module has the variable
  every named import is warned, in order. With \<^verbatim>\<open>shimMissingExports\<close> set, the lookup shims
  the export and yields a variable, and then no such warning is emitted. The function has no
  failing branch and leaves \<^verbatim>\<open>modules\<close> alone. The lookup, which is outside these sources, is
  taken to emit and to remove no warning of this code itself, and to leave the import
  descriptions and the ids as they are.
\<close>

theorem missing_exports_are_warned:
  assumes frame: "\<And>shim r n w.
        warnedWith ''NON_EXISTENT_EXPORT'' (snd (getVariableForExportName env shim r n w)) =
          warnedWith ''NON_EXISTENT_EXPORT'' w"
    and links: "\<And>shim r n w. sameLinks w (snd (getVariableForExportName env shim r n w))"
  shows "warnedWith ''NON_EXISTENT_EXPORT'' (world (warnForMissingExports env g)) =
           warnedWith ''NON_EXISTENT_EXPORT'' (world g)
           @ missingExportWarnings env (shimMissingExports g) (modules g) (world g)
     \<and> modules (warnForMissingExports env g) = modules g
     \<and> (\<forall>shim m entry w.
           warnedWith ''NON_EXISTENT_EXPORT'' (warnForImport env shim m entry w) =
             warnedWith ''NON_EXISTENT_EXPORT'' w
             @ (if import_name (snd entry) \<noteq> ''*''
                   \<and> \<not> fst (getVariableForExportName env shim (import_module (snd entry))
                              (import_name (snd entry)) w)
                then [missingExportWarning env (afterLookup env shim (snd entry) w) m (snd entry)]
                else []))
     \<and> (\<forall>w m d. code (missingExportWarning env w m d) = ''NON_EXISTENT_EXPORT''
           \<and> warning_name (missingExportWarning env w m d) = Some (import_name d)
           \<and> warning_source (missingExportWarning env w m d) = Some (producerId w (import_module d)))
     \<and> (\<forall>x \<in> set (missingExportWarnings env (shimMissingExports g) (modules g) (world g)).
           code x = ''NON_EXISTENT_EXPORT'' \<and> warning_name x \<noteq> Some ''*'')
     \<and> ((\<forall>r n w. \<not> fst (getVariableForExportName env (shimMissingExports g) r n w)) \<longrightarrow>
           warnedWith ''NON_EXISTENT_EXPORT'' (world (warnForMissingExports env g)) =
             warnedWith ''NON_EXISTENT_EXPORT'' (world g)
             @ allNamedImportWarnings env (modules g) (world g))
     \<and> (shimMissingExports g \<and> (\<forall>r n w. fst (getVariableForExportName env True r n w)) \<longrightarrow>
           warnedWith ''NON_EXISTENT_EXPORT'' (world (warnForMissingExports env g)) =
             warnedWith ''NON_EXISTENT_EXPORT'' (world g))"
proof -
  let ?N = "''NON_EXISTENT_EXPORT''"
  let ?shim = "shimMissingExports g"
  have log: "warnedWith ?N (world (warnForMissingExports env g)) =
      warnedWith ?N (world g) @ missingExportWarnings env ?shim (modules g) (world g)"
    using fold_modules_missing[where env = env and shim = ?shim and ms = "modules g"
        and w = "world g"] frame
    by (simp add: warnForMissingExports_def)
  have kept: "modules (warnForMissingExports env g) = modules g"
    by (simp add: warnForMissingExports_def)
  have step: "\<forall>shim m entry w.
           warnedWith ?N (warnForImport env shim m entry w) =
             warnedWith ?N w
             @ (if import_name (snd entry) \<noteq> ''*''
                   \<and> \<not> fst (getVariableForExportName env shim (import_module (snd entry))
                              (import_name (snd entry)) w)
                then [missingExportWarning env (afterLookup env shim (snd entry) w) m (snd entry)]
                else [])"
  proof (intro allI)
    fix shim m entry w
    show "warnedWith ?N (warnForImport env shim m entry w) =
             warnedWith ?N w
             @ (if import_name (snd entry) \<noteq> ''*''
                   \<and> \<not> fst (getVariableForExportName env shim (import_module (snd entry))
                              (import_name (snd entry)) w)
                then [missingExportWarning env (afterLookup env shim (snd entry) w) m (snd entry)]
                else [])"
      using warnForImport_missing[where env = env and shim = shim and m = m and entry = entry
          and w = w] frame
      by (simp add: isMissingExport_def)
  qed
  have fields: "\<forall>w m d. code (missingExportWarning env w m d) = ?N
           \<and> warning_name (missingExportWarning env w m d) = Some (import_name d)
           \<and> warning_source (missingExportWarning env w m d) = Some (producerId w (import_module d))"
    using missingExportWarning_fields by blast
  have named: "\<forall>x \<in> set (missingExportWarnings env ?shim (modules g) (world g)).
           code x = ?N \<and> warning_name x \<noteq> Some ''*''"
    using missingExportWarnings_named by blast
  have none: "(\<forall>r n w. \<not> fst (getVariableForExportName env ?shim r n w)) \<longrightarrow>
           warnedWith ?N (world (warnForMissingExports env g)) =
             warnedWith ?N (world g) @ allNamedImportWarnings env (modules g) (world g)"
  proof
    assume "\<forall>r n w. \<not> fst (getVariableForExportName env ?shim r n w)"
    then have "missingExportWarnings env ?shim (modules g) (world g) =
        allNamedImportWarnings env (modules g) (world g)"
      using missingExportWarnings_none[where env = env and shim = ?shim and start = "world g"
          and w = "world g" and ms = "modules g"] links sameLinks_refl
      by blast
    with log show "warnedWith ?N (world (warnForMissingExports env g)) =
             warnedWith ?N (world g) @ allNamedImportWarnings env (modules g) (world g)"
      by simp
  qed
  have shimmed: "shimMissingExports g \<and> (\<forall>r n w. fst (getVariableForExportName env True r n w)) \<longrightarrow>
           warnedWith ?N (world (warnForMissingExports env g)) = warnedWith ?N (world g)"
  proof
    assume a: "shimMissingExports g \<and> (\<forall>r n w. fst (getVariableForExportName env True r n w))"
    then have "missingExportWarnings env True (modules g) (world g) = []"
      using missingExportWarnings_found[where env = env and shim = True] by blast
    with a log show "warnedWith ?N (world (warnForMissingExports env g)) = warnedWith ?N (world g)"
      by simp
  qed
  show ?thesis
    apply (insert log kept step fields named none shimmed)
    apply (intro conjI; assumption)
    done
qed

theorem missing_exports_are_warned_witness:
  "map warning_name (warnedWith ''NON_EXISTENT_EXPORT''
      (world (warnForMissingExports exampleEnv exampleGraph))) = [Some ''y'']
   \<and> map warning_source (warnedWith ''NON_EXISTENT_EXPORT''
      (world (warnForMissingExports exampleEnv exampleGraph))) = [Some ''b.js'']
   \<and> map warning_id (warnedWith ''NON_EXISTENT_EXPORT''
      (world (warnForMissingExports exampleEnv exampleGraph))) = [Some ''a.js'']
   \<and> shimMissingExports shimmingGraph
   \<and> warnedWith ''NON_EXISTENT_EXPORT'' (world (warnForMissingExports exampleEnv shimmingGraph)) = []
   \<and> map code (warned (world (warnForMissingExports exampleEnv shimmingGraph))) = [''SHIMMED_EXPORT'']"
proof -
  have frame: "\<And>shim r n w.
      warnedWith ''NON_EXISTENT_EXPORT'' (snd (getVariableForExportName exampleEnv shim r n w)) =
        warnedWith ''NON_EXISTENT_EXPORT'' w"
    by (simp add: exampleEnv_def warnedWith_def warn_def plainWarning_def)
  have links: "\<And>shim r n w. sameLinks w (snd (getVariableForExportName exampleEnv shim r n w))"
    by (simp add: exampleEnv_def sameLinks_def warn_def)
  note main = missing_exports_are_warned[where env = exampleEnv, OF frame links]
  have before: "warnedWith ''NON_EXISTENT_EXPORT'' (world exampleGraph) = []"
    "warnedWith ''NON_EXISTENT_EXPORT'' (world shimmingGraph) = []"
    by (simp_all add: warnedWith_def shimmingGraph_def exampleGraph_def exampleWorld_def)
  have lookups: "\<And>shim d w. afterLookup exampleEnv shim d w =
      (if import_name d \<noteq> ''*'' \<and> import_name d \<noteq> ''x'' \<and> shim
       then warn (plainWarning ''SHIMMED_EXPORT'' (import_name d)) w else w)"
    by (simp add: afterLookup_def exampleEnv_def)
  have miss: "\<And>d w. isMissingExport exampleEnv False d w \<longleftrightarrow>
      import_name d \<noteq> ''*'' \<and> import_name d \<noteq> ''x''"
    by (simp add: isMissingExport_def exampleEnv_def)
  have objs: "\<And>m entry w. moduleObjs (warnForImport exampleEnv False m entry w) = moduleObjs w"
    by (simp add: warnForImport_def exampleEnv_def Let_def module_warn_def warn_def)
  have new: "missingExportWarnings exampleEnv (shimMissingExports exampleGraph)
      (modules exampleGraph) (world exampleGraph) =
      [missingExportWarning exampleEnv exampleWorld 0
         \<lparr>import_name = ''y'', import_module = ModuleRef 1, import_start = 7\<rparr>]"
    by (simp add: exampleGraph_def miss lookups objs)
       (simp add: exampleWorld_def moduleA_def moduleB_def miss lookups objs)
  have "warnedWith ''NON_EXISTENT_EXPORT'' (world (warnForMissingExports exampleEnv exampleGraph)) =
      [missingExportWarning exampleEnv exampleWorld 0
         \<lparr>import_name = ''y'', import_module = ModuleRef 1, import_start = 7\<rparr>]"
    using main[of exampleGraph, THEN conjunct1] by (simp add: before new)
  then have plain: "map warning_name (warnedWith ''NON_EXISTENT_EXPORT''
        (world (warnForMissingExports exampleEnv exampleGraph))) = [Some ''y'']
      \<and> map warning_source (warnedWith ''NON_EXISTENT_EXPORT''
        (world (warnForMissingExports exampleEnv exampleGraph))) = [Some ''b.js'']
      \<and> map warning_id (warnedWith ''NON_EXISTENT_EXPORT''
        (world (warnForMissingExports exampleEnv exampleGraph))) = [Some ''a.js'']"
    using missingExportWarning_fields[of exampleEnv exampleWorld 0
        "\<lparr>import_name = ''y'', import_module = ModuleRef 1, import_start = 7\<rparr>"]
    by (simp add: producerId_def exampleWorld_def moduleA_def moduleB_def)
  have flag: "shimMissingExports shimmingGraph"
    by (simp add: shimmingGraph_def)
  have always: "\<forall>r n w. fst (getVariableForExportName exampleEnv True r n w)"
    by (simp add: exampleEnv_def)
  have "shimMissingExports shimmingGraph
        \<and> (\<forall>r n w. fst (getVariableForExportName exampleEnv True r n w)) \<longrightarrow>
      warnedWith ''NON_EXISTENT_EXPORT'' (world (warnForMissingExports exampleEnv shimmingGraph)) =
        warnedWith ''NON_EXISTENT_EXPORT'' (world shimmingGraph)"
    using main[of shimmingGraph] by blast
  then have shimmed:
    "warnedWith ''NON_EXISTENT_EXPORT'' (world (warnForMissingExports exampleEnv shimmingGraph)) = []"
    using flag always before by simp
  have shimStep: "\<And>m entry w. warnForImport exampleEnv True m entry w =
      (if import_name (snd entry) \<noteq> ''*'' \<and> import_name (snd entry) \<noteq> ''x''
       then warn (plainWarning ''SHIMMED_EXPORT'' (import_name (snd entry))) w else w)"
    by (simp add: warnForImport_def exampleEnv_def Let_def)
  have warnObjs: "\<And>x w. moduleObjs (warn x w) = moduleObjs w"
    by (simp add: warn_def)
  have logged:
    "map code (warned (world (warnForMissingExports exampleEnv shimmingGraph))) = [''SHIMMED_EXPORT'']"
    by (simp add: warnForMissingExports_def shimmingGraph_def exampleGraph_def shimStep warnObjs)
       (simp add: exampleWorld_def moduleA_def moduleB_def shimStep warnObjs warn_def
          plainWarning_def)
  from plain flag shimmed logged show ?thesis by blast
qed

subsection \<open>\<^verbatim>\<open>includeStatements\<close>: the tree-shaking passes\<close>

lemma fold_includeIfExecuted_calls:
  "fold (includeIfExecuted env) ms w = fold (module_include env) (includeCalls env ms w) w"
  by (induction ms arbitrary: w) (simp_all add: includeIfExecuted_def)

lemma includeCalls_append:
  "includeCalls env (pre @ post) w =
     includeCalls env pre w @ includeCalls env post (fold (includeIfExecuted env) pre w)"
  by (induction pre arbitrary: w) (simp_all add: includeIfExecuted_def)

lemma includeCalls_member:
  "m \<in> set (includeCalls env ms w) \<longleftrightarrow>
     (\<exists>pre post. ms = pre @ m # post
        \<and> isExecuted (moduleObjs (fold (includeIfExecuted env) pre w) m))"
proof (induction ms arbitrary: w)
  case Nil
  then show ?case by simp
next
  case (Cons x xs)
  show ?case
  proof
    assume mem: "m \<in> set (includeCalls env (x # xs) w)"
    show "\<exists>pre post. x # xs = pre @ m # post
        \<and> isExecuted (moduleObjs (fold (includeIfExecuted env) pre w) m)"
    proof (cases "m = x \<and> isExecuted (moduleObjs w x)")
      case True
      then have "x # xs = [] @ m # xs \<and> isExecuted (moduleObjs (fold (includeIfExecuted env) [] w) m)"
        by simp
      then show ?thesis by blast
    next
      case False
      with mem have "m \<in> set (includeCalls env xs (includeIfExecuted env x w))"
        by (auto simp: includeIfExecuted_def split: if_splits)
      then obtain pre post where "xs = pre @ m # post"
        and "isExecuted (moduleObjs (fold (includeIfExecuted env) pre (includeIfExecuted env x w)) m)"
        using Cons.IH by blast
      then have "x # xs = (x # pre) @ m # post
          \<and> isExecuted (moduleObjs (fold (includeIfExecuted env) (x # pre) w) m)"
        by simp
      then show ?thesis by blast
    qed
  next
    assume "\<exists>pre post. x # xs = pre @ m # post
        \<and> isExecuted (moduleObjs (fold (includeIfExecuted env) pre w) m)"
    then obtain pre post where split: "x # xs = pre @ m # post"
      and exec: "isExecuted (moduleObjs (fold (includeIfExecuted env) pre w) m)"
      by blast
    have "includeCalls env (pre @ m # post) w =
        includeCalls env pre w @ includeCalls env (m # post) (fold (includeIfExecuted env) pre w)"
      by (rule includeCalls_append)
    with exec have "m \<in> set (includeCalls env (pre @ m # post) w)" by simp
    with split show "m \<in> set (includeCalls env (x # xs) w)" by simp
  qed
qed

lemma fold_include_mono:
  assumes mono: "\<And>m w. marked w \<subseteq> marked (module_include env m w)"
  shows "marked w \<subseteq> marked (fold (includeIfExecuted env) ms w)"
proof (induction ms arbitrary: w)
  case Nil
  then show ?case by simp
next
  case (Cons m ms)
  have "marked w \<subseteq> marked (includeIfExecuted env m w)"
    using mono by (simp add: includeIfExecuted_def)
  also have "\<dots> \<subseteq> marked (fold (includeIfExecuted env) ms (includeIfExecuted env m w))"
    using Cons.IH[of "includeIfExecuted env m w"] by blast
  finally show ?case by simp
qed

lemma fold_include_flag:
  assumes mono: "\<And>m w. marked w \<subseteq> marked (module_include env m w)"
    and flag: "\<And>m w. needsTreeshakingPass (module_include env m w) \<Longrightarrow>
                 needsTreeshakingPass w \<or> marked w \<subset> marked (module_include env m w)"
    and res: "needsTreeshakingPass (fold (includeIfExecuted env) ms w)"
  shows "needsTreeshakingPass w \<or> marked w \<subset> marked (fold (includeIfExecuted env) ms w)"
  using res
proof (induction ms arbitrary: w)
  case Nil
  then show ?case by simp
next
  case (Cons m ms)
  let ?w1 = "includeIfExecuted env m w"
  let ?w2 = "fold (includeIfExecuted env) ms ?w1"
  have step: "marked w \<subseteq> marked ?w1"
    using mono by (simp add: includeIfExecuted_def)
  have rest: "marked ?w1 \<subseteq> marked ?w2"
    using fold_include_mono[where marked = marked and env = env] mono by blast
  from Cons.prems have "needsTreeshakingPass ?w2" by simp
  then have "needsTreeshakingPass ?w1 \<or> marked ?w1 \<subset> marked ?w2"
    using Cons.IH[of ?w1] by blast
  then show ?case
  proof
    assume "needsTreeshakingPass ?w1"
    then have "needsTreeshakingPass w \<or> marked w \<subset> marked ?w1"
      using flag by (auto simp: includeIfExecuted_def split: if_splits)
    with rest show ?thesis by auto
  next
    assume "marked ?w1 \<subset> marked ?w2"
    with step show ?thesis by auto
  qed
qed

lemma treeshakingPass_grows:
  assumes mono: "\<And>m w. marked w \<subseteq> marked (module_include env m w)"
    and flag: "\<And>m w. needsTreeshakingPass (module_include env m w) \<Longrightarrow>
                 needsTreeshakingPass w \<or> marked w \<subset> marked (module_include env m w)"
    and reset: "\<And>w. marked (w\<lparr>needsTreeshakingPass := False\<rparr>) = marked w"
    and again: "needsTreeshakingPass (treeshakingPass env ms w)"
  shows "marked w \<subset> marked (treeshakingPass env ms w)"
proof -
  let ?w0 = "w\<lparr>needsTreeshakingPass := False\<rparr>"
  have "needsTreeshakingPass (fold (includeIfExecuted env) ms ?w0)"
    using again by (simp add: treeshakingPass_def)
  then have "needsTreeshakingPass ?w0 \<or> marked ?w0 \<subset> marked (fold (includeIfExecuted env) ms ?w0)"
    using fold_include_flag[where marked = marked and env = env and ms = ms and w = ?w0] mono flag
    by blast
  then show ?thesis by (simp add: treeshakingPass_def reset)
qed

lemma treeshakingLoop_terminates:
  assumes fin: "finite U"
    and dom: "\<And>w. marked w \<subseteq> U"
    and mono: "\<And>m w. marked w \<subseteq> marked (module_include env m w)"
    and flag: "\<And>m w. needsTreeshakingPass (module_include env m w) \<Longrightarrow>
                 needsTreeshakingPass w \<or> marked w \<subset> marked (module_include env m w)"
    and reset: "\<And>w. marked (w\<lparr>needsTreeshakingPass := False\<rparr>) = marked w"
  shows "\<exists>n. treeshakingLoop env ms counter w = Some ((treeshakingPass env ms ^^ n) w, counter + n)
     \<and> 1 \<le> n \<and> n \<le> card (U - marked w) + 1
     \<and> \<not> needsTreeshakingPass ((treeshakingPass env ms ^^ n) w)
     \<and> (\<forall>k. 0 < k \<and> k < n \<longrightarrow> needsTreeshakingPass ((treeshakingPass env ms ^^ k) w))"
proof (induction "card (U - marked w)" arbitrary: w counter rule: less_induct)
  case less
  let ?P = "treeshakingPass env ms"
  show ?case
  proof (cases "needsTreeshakingPass (?P w)")
    case False
    then have "treeshakingLoop env ms counter w = Some ((?P ^^ 1) w, counter + 1)"
      by (subst treeshakingLoop.simps) (simp add: Let_def)
    with False show ?thesis
      by (intro exI[of _ 1]) simp
  next
    case True
    have strict: "marked w \<subset> marked (?P w)"
      using treeshakingPass_grows[where marked = marked and env = env and ms = ms and w = w]
        mono flag reset True by blast
    have "U - marked (?P w) \<subset> U - marked w"
      using strict dom[of "?P w"] by blast
    then have smaller: "card (U - marked (?P w)) < card (U - marked w)"
      using fin by (simp add: psubset_card_mono)
    from less[OF smaller, of "counter + 1"]
    obtain n where loop: "treeshakingLoop env ms (counter + 1) (?P w) =
          Some ((?P ^^ n) (?P w), counter + 1 + n)"
      and lower: "1 \<le> n" and upper: "n \<le> card (U - marked (?P w)) + 1"
      and stop: "\<not> needsTreeshakingPass ((?P ^^ n) (?P w))"
      and before: "\<forall>k. 0 < k \<and> k < n \<longrightarrow> needsTreeshakingPass ((?P ^^ k) (?P w))"
      by blast
    have shift: "\<And>k. (?P ^^ k) (?P w) = (?P ^^ Suc k) w"
      by (simp add: funpow_swap1)
    have unfold: "treeshakingLoop env ms counter w = treeshakingLoop env ms (counter + 1) (?P w)"
      using True by (subst treeshakingLoop.simps) (simp add: Let_def)
    have earlier: "\<forall>k. 0 < k \<and> k < Suc n \<longrightarrow> needsTreeshakingPass ((?P ^^ k) w)"
    proof (intro allI impI)
      fix k assume k: "0 < k \<and> k < Suc n"
      show "needsTreeshakingPass ((?P ^^ k) w)"
      proof (cases "k = 1")
        case True
        with \<open>needsTreeshakingPass (?P w)\<close> show ?thesis by simp
      next
        case False
        with k obtain j where j: "k = Suc j" "0 < j" "j < n"
          by (cases k) auto
        with before have "needsTreeshakingPass ((?P ^^ j) (?P w))" by blast
        then show ?thesis using j shift by simp
      qed
    qed
    have "treeshakingLoop env ms counter w = Some ((?P ^^ Suc n) w, counter + Suc n)"
      using unfold loop shift by simp
    moreover have "1 \<le> Suc n" by simp
    moreover have "Suc n \<le> card (U - marked w) + 1"
      using upper smaller by simp
    moreover have "\<not> needsTreeshakingPass ((?P ^^ Suc n) w)"
      using stop shift by simp
    ultimately show ?thesis using earlier by blast
  qed
qed

text \<open>
  Claim C1. With tree-shaking enabled, \<^verbatim>\<open>includeStatements\<close> makes passes over
  \<^verbatim>\<open>modules\<close>; a pass is the sequence of the \<^verbatim>\<open>include\<close> calls on the modules found with
  \<^verbatim>\<open>isExecuted\<close> set when the pass reaches them, and on no other. Let \<open>marked\<close> observe the set
  of included variables and statements, inside a finite domain \<open>U\<close>, and let \<^verbatim>\<open>include\<close> only
  add to it and raise \<^verbatim>\<open>needsTreeshakingPass\<close> only when it adds something. Then the loop ends
  after \<open>n\<close> passes with \<open>1 \<le> n \<le> card U + 1\<close>: the \<open>n\<close>-th pass is the first that leaves the
  flag down, and \<^verbatim>\<open>includeStatements\<close> returns.
\<close>

theorem treeshaking_passes_reach_fixed_point:
  assumes enabled: "treeshakingOptions g = Some topts"
    and fin: "finite U"
    and dom: "\<And>w. marked w \<subseteq> U"
    and mono: "\<And>m w. marked w \<subseteq> marked (module_include env m w)"
    and flag: "\<And>m w. needsTreeshakingPass (module_include env m w) \<Longrightarrow>
                 needsTreeshakingPass w \<or> marked w \<subset> marked (module_include env m w)"
    and reset: "\<And>w. marked (w\<lparr>needsTreeshakingPass := False\<rparr>) = marked w"
  shows "(\<forall>w. treeshakingPass env (modules g) w =
            fold (module_include env)
              (includeCalls env (modules g) (w\<lparr>needsTreeshakingPass := False\<rparr>))
              (w\<lparr>needsTreeshakingPass := False\<rparr>))
     \<and> (\<forall>w m. m \<in> set (includeCalls env (modules g) w) \<longleftrightarrow>
           (\<exists>pre post. modules g = pre @ m # post
              \<and> isExecuted (moduleObjs (fold (includeIfExecuted env) pre w) m)))
     \<and> (\<exists>n. 1 \<le> n \<and> n \<le> card U + 1
           \<and> treeshakingLoop env (modules g) 1 (fold (seedEntryModule env) entries (world g)) =
               Some ((treeshakingPass env (modules g) ^^ n)
                       (fold (seedEntryModule env) entries (world g)), 1 + n)
           \<and> \<not> needsTreeshakingPass
                 ((treeshakingPass env (modules g) ^^ n)
                    (fold (seedEntryModule env) entries (world g)))
           \<and> (\<forall>k. 0 < k \<and> k < n \<longrightarrow>
                 needsTreeshakingPass
                   ((treeshakingPass env (modules g) ^^ k)
                      (fold (seedEntryModule env) entries (world g))))
           \<and> includeStatements env entries g =
               Some (g\<lparr>world := fold (warnUnusedImports env) (externalModules g)
                       ((treeshakingPass env (modules g) ^^ n)
                          (fold (seedEntryModule env) entries (world g)))\<rparr>))"
proof -
  let ?w1 = "fold (seedEntryModule env) entries (world g)"
  let ?P = "treeshakingPass env (modules g)"
  have calls: "\<forall>w. ?P w =
            fold (module_include env)
              (includeCalls env (modules g) (w\<lparr>needsTreeshakingPass := False\<rparr>))
              (w\<lparr>needsTreeshakingPass := False\<rparr>)"
    by (simp add: treeshakingPass_def fold_includeIfExecuted_calls)
  have exactly: "\<forall>w m. m \<in> set (includeCalls env (modules g) w) \<longleftrightarrow>
           (\<exists>pre post. modules g = pre @ m # post
              \<and> isExecuted (moduleObjs (fold (includeIfExecuted env) pre w) m))"
    using includeCalls_member by blast
  obtain n where loop: "treeshakingLoop env (modules g) 1 ?w1 = Some ((?P ^^ n) ?w1, 1 + n)"
    and lower: "1 \<le> n" and upper: "n \<le> card (U - marked ?w1) + 1"
    and stop: "\<not> needsTreeshakingPass ((?P ^^ n) ?w1)"
    and before: "\<forall>k. 0 < k \<and> k < n \<longrightarrow> needsTreeshakingPass ((?P ^^ k) ?w1)"
    using treeshakingLoop_terminates[where marked = marked and env = env and U = U
        and ms = "modules g" and counter = 1 and w = ?w1] fin dom mono flag reset
    by blast
  have "card (U - marked ?w1) \<le> card U"
    using fin by (simp add: card_mono)
  with upper have bound: "n \<le> card U + 1" by simp
  have returns: "includeStatements env entries g =
      Some (g\<lparr>world := fold (warnUnusedImports env) (externalModules g) ((?P ^^ n) ?w1)\<rparr>)"
    using enabled loop by (simp add: includeStatements_def Let_def)
  from lower bound loop stop before returns
  have "\<exists>n. 1 \<le> n \<and> n \<le> card U + 1
           \<and> treeshakingLoop env (modules g) 1 ?w1 = Some ((?P ^^ n) ?w1, 1 + n)
           \<and> \<not> needsTreeshakingPass ((?P ^^ n) ?w1)
           \<and> (\<forall>k. 0 < k \<and> k < n \<longrightarrow> needsTreeshakingPass ((?P ^^ k) ?w1))
           \<and> includeStatements env entries g =
               Some (g\<lparr>world := fold (warnUnusedImports env) (externalModules g) ((?P ^^ n) ?w1)\<rparr>)"
    by blast
  with calls exactly show ?thesis by blast
qed

theorem treeshaking_passes_reach_fixed_point_witness:
  "finite {0, 1 :: nat}
   \<and> (\<exists>n g'. 1 \<le> n \<and> n \<le> 3
        \<and> treeshakingLoop exampleEnv [0, 1] 1 (fold (seedEntryModule exampleEnv) [0] exampleWorld) =
            Some ((treeshakingPass exampleEnv [0, 1] ^^ n)
                    (fold (seedEntryModule exampleEnv) [0] exampleWorld), 1 + n)
        \<and> includeStatements exampleEnv [0] exampleGraph = Some g')"
proof -
  have enabled: "treeshakingOptions exampleGraph =
      Some \<lparr>annotations = Some True, treeshake_moduleSideEffects = Some (SideEffectsBool True),
            propertyReadSideEffects = Some True, pureExternalModules = None,
            tryCatchDeoptimization = Some True, unknownGlobalSideEffects = Some True\<rparr>"
    by (simp add: exampleGraph_def normalizeTreeshake_def)
  have fin: "finite {0, 1 :: nat}" by simp
  have dom: "\<And>w. exampleMarked w \<subseteq> {0, 1}"
    by (auto simp: exampleMarked_def)
  have mono: "\<And>m w. exampleMarked w \<subseteq> exampleMarked (module_include exampleEnv m w)"
    by (auto simp: exampleMarked_def exampleEnv_def)
  have flag: "\<And>m w. needsTreeshakingPass (module_include exampleEnv m w) \<Longrightarrow>
      needsTreeshakingPass w \<or> exampleMarked w \<subset> exampleMarked (module_include exampleEnv m w)"
    by (auto simp: exampleMarked_def exampleEnv_def split: if_splits)
  have reset: "\<And>w. exampleMarked (w\<lparr>needsTreeshakingPass := False\<rparr>) = exampleMarked w"
    by (simp add: exampleMarked_def)
  have card: "card {0, 1 :: nat} + 1 = 3" by simp
  from treeshaking_passes_reach_fixed_point[where marked = exampleMarked and env = exampleEnv
      and U = "{0, 1}" and g = exampleGraph and entries = "[0]", OF enabled fin dom mono flag reset]
  have "\<exists>n g'. 1 \<le> n \<and> n \<le> 3
        \<and> treeshakingLoop exampleEnv (modules exampleGraph) 1
            (fold (seedEntryModule exampleEnv) [0] (world exampleGraph)) =
            Some ((treeshakingPass exampleEnv (modules exampleGraph) ^^ n)
                    (fold (seedEntryModule exampleEnv) [0] (world exampleGraph)), 1 + n)
        \<and> includeStatements exampleEnv [0] exampleGraph = Some g'"
    unfolding card by blast
  then show ?thesis
    using fin by (simp add: exampleGraph_def)
qed

subsection \<open>\<^verbatim>\<open>includeStatements\<close>: seeding from the entry modules\<close>

lemma seedEntryModule_mono:
  assumes grows: "\<And>m w. marked w \<subseteq> marked (includeAllExports env m w)"
    and inert: "\<And>m w. marked (markModuleAndImpureDependenciesAsExecuted env m w) = marked w"
  shows "marked w \<subseteq> marked (seedEntryModule env m w)"
  using grows inert by (simp add: seedEntryModule_def)

lemma fold_seedEntryModule_mono:
  assumes grows: "\<And>m w. marked w \<subseteq> marked (includeAllExports env m w)"
    and inert: "\<And>m w. marked (markModuleAndImpureDependenciesAsExecuted env m w) = marked w"
  shows "marked w \<subseteq> marked (fold (seedEntryModule env) ms w)"
proof (induction ms arbitrary: w)
  case Nil
  then show ?case by simp
next
  case (Cons m ms)
  have "marked w \<subseteq> marked (seedEntryModule env m w)"
    using seedEntryModule_mono[where marked = marked and env = env] grows inert by blast
  also have "\<dots> \<subseteq> marked (fold (seedEntryModule env) ms (seedEntryModule env m w))"
    using Cons.IH[of "seedEntryModule env m w"] by blast
  finally show ?case by simp
qed

lemma seedEntryModule_signature:
  assumes keep1: "\<And>m m' w. preserveSignature (moduleObjs (includeAllExports env m w) m') =
                    preserveSignature (moduleObjs w m')"
    and keep2: "\<And>m m' w.
        preserveSignature (moduleObjs (markModuleAndImpureDependenciesAsExecuted env m w) m') =
          preserveSignature (moduleObjs w m')"
  shows "preserveSignature (moduleObjs (seedEntryModule env m w) m') =
           preserveSignature (moduleObjs w m')"
  using keep1 keep2 by (simp add: seedEntryModule_def)

lemma fold_seedEntryModule_exports:
  assumes exports: "\<And>m w. exportsOf m \<subseteq> marked (includeAllExports env m w)"
    and grows: "\<And>m w. marked w \<subseteq> marked (includeAllExports env m w)"
    and inert: "\<And>m w. marked (markModuleAndImpureDependenciesAsExecuted env m w) = marked w"
    and keep1: "\<And>m m' w. preserveSignature (moduleObjs (includeAllExports env m w) m') =
                    preserveSignature (moduleObjs w m')"
    and keep2: "\<And>m m' w.
        preserveSignature (moduleObjs (markModuleAndImpureDependenciesAsExecuted env m w) m') =
          preserveSignature (moduleObjs w m')"
    and entry: "m \<in> set ms"
    and signature: "preserveSignature (moduleObjs w m) \<noteq> PreserveFalse"
  shows "exportsOf m \<subseteq> marked (fold (seedEntryModule env) ms w)"
  using entry signature
proof (induction ms arbitrary: w)
  case Nil
  then show ?case by simp
next
  case (Cons x xs)
  let ?w1 = "seedEntryModule env x w"
  have rest: "marked ?w1 \<subseteq> marked (fold (seedEntryModule env) xs ?w1)"
    using fold_seedEntryModule_mono[where marked = marked and env = env] grows inert by blast
  show ?case
  proof (cases "m = x")
    case True
    with Cons.prems have "?w1 = includeAllExports env m w"
      by (simp add: seedEntryModule_def)
    then have "exportsOf m \<subseteq> marked ?w1"
      using exports by simp
    with rest show ?thesis by auto
  next
    case False
    with Cons.prems have "m \<in> set xs" by simp
    moreover have "preserveSignature (moduleObjs ?w1 m) \<noteq> PreserveFalse"
      using Cons.prems(2) seedEntryModule_signature[where env = env] keep1 keep2 by simp
    ultimately have "exportsOf m \<subseteq> marked (fold (seedEntryModule env) xs ?w1)"
      using Cons.IH[of ?w1] by blast
    then show ?thesis by simp
  qed
qed

lemma fold_seedEntryModule_none:
  assumes inert: "\<And>m w. marked (markModuleAndImpureDependenciesAsExecuted env m w) = marked w"
    and keep2: "\<And>m m' w.
        preserveSignature (moduleObjs (markModuleAndImpureDependenciesAsExecuted env m w) m') =
          preserveSignature (moduleObjs w m')"
    and none: "\<forall>m \<in> set ms. preserveSignature (moduleObjs w m) = PreserveFalse"
  shows "marked (fold (seedEntryModule env) ms w) = marked w"
  using none
proof (induction ms arbitrary: w)
  case Nil
  then show ?case by simp
next
  case (Cons x xs)
  have step: "seedEntryModule env x w = markModuleAndImpureDependenciesAsExecuted env x w"
    using Cons.prems by (simp add: seedEntryModule_def)
  have "\<forall>m \<in> set xs. preserveSignature (moduleObjs (seedEntryModule env x w) m) = PreserveFalse"
    using Cons.prems keep2 step by simp
  then have "marked (fold (seedEntryModule env) xs (seedEntryModule env x w)) =
      marked (seedEntryModule env x w)"
    using Cons.IH[of "seedEntryModule env x w"] by blast
  then show ?case using step inert by simp
qed

lemma treeshakingPass_invariant:
  assumes step: "\<And>m w. P w \<Longrightarrow> P (module_include env m w)"
    and reset: "\<And>w. P w \<Longrightarrow> P (w\<lparr>needsTreeshakingPass := False\<rparr>)"
    and start: "P w"
  shows "P (treeshakingPass env ms w)"
proof -
  have "P w' \<Longrightarrow> P (fold (includeIfExecuted env) ms w')" for w'
    by (induction ms arbitrary: w') (simp_all add: includeIfExecuted_def step)
  then show ?thesis using reset[OF start] by (simp add: treeshakingPass_def)
qed

lemma treeshakingLoop_invariant:
  assumes step: "\<And>m w. P w \<Longrightarrow> P (module_include env m w)"
    and reset: "\<And>w. P w \<Longrightarrow> P (w\<lparr>needsTreeshakingPass := False\<rparr>)"
    and result: "treeshakingLoop env ms counter w = Some r"
    and start: "P w"
  shows "P (fst r)"
proof -
  have "env = env \<longrightarrow> P w \<longrightarrow> P (fst r)"
  proof (rule treeshakingLoop.raw_induct[where
        P = "\<lambda>env' ms' counter' w' r'. env' = env \<longrightarrow> P w' \<longrightarrow> P (fst r')"
        and env = env and ms = ms and counter = counter and w = w and y = r])
    fix loop :: "('a, 'b, 'c) env \<Rightarrow> ref list \<Rightarrow> nat \<Rightarrow> world \<Rightarrow> (world \<times> nat) option"
    fix env' ms' counter' w' r'
    assume IH: "\<And>e xs c v y. loop e xs c v = Some y \<Longrightarrow> e = env \<longrightarrow> P v \<longrightarrow> P (fst y)"
    assume body: "(let v = treeshakingPass env' ms' w' in
        if needsTreeshakingPass v then loop env' ms' (counter' + 1) v
        else Some (v, counter' + 1)) = Some r'"
    show "env' = env \<longrightarrow> P w' \<longrightarrow> P (fst r')"
    proof (intro impI)
      assume env: "env' = env" and p: "P w'"
      have pass: "P (treeshakingPass env ms' w')"
        by (rule treeshakingPass_invariant[where P = P, OF step reset p])
      show "P (fst r')"
      proof (cases "needsTreeshakingPass (treeshakingPass env ms' w')")
        case True
        then have "loop env ms' (counter' + 1) (treeshakingPass env ms' w') = Some r'"
          using body env by (simp add: Let_def)
        then show ?thesis using IH pass by blast
      next
        case False
        then have "r' = (treeshakingPass env ms' w', counter' + 1)"
          using body env by (auto simp: Let_def)
        then show ?thesis using pass by simp
      qed
    qed
  next
    show "treeshakingLoop env ms counter w = Some r" by (rule result)
  qed
  then show ?thesis using start by simp
qed

lemma includeStatements_invariant:
  assumes passing: "\<And>m w. P w \<Longrightarrow> P (module_include env m w)"
    and reset: "\<And>w. P w \<Longrightarrow> P (w\<lparr>needsTreeshakingPass := False\<rparr>)"
    and bundling: "\<And>m w. P w \<Longrightarrow> P (includeAllInBundle env m w)"
    and swept: "\<And>e w. P w \<Longrightarrow> P (warnUnusedImports env e w)"
    and result: "includeStatements env entries g = Some g'"
    and seeded: "P (fold (seedEntryModule env) entries (world g))"
  shows "P (world g')"
proof -
  let ?w1 = "fold (seedEntryModule env) entries (world g)"
  have folded: "P v \<Longrightarrow> P (fold f xs v)" if "\<And>x v. P v \<Longrightarrow> P (f x v)"
    for f :: "ref \<Rightarrow> world \<Rightarrow> world" and xs v
    using that by (induction xs arbitrary: v) simp_all
  obtain w2 where w2: "P w2"
    and g': "g' = g\<lparr>world := fold (warnUnusedImports env) (externalModules g) w2\<rparr>"
  proof (cases "treeshakingOptions g")
    case None
    then have "g' = g\<lparr>world := fold (warnUnusedImports env) (externalModules g)
        (fold (includeAllInBundle env) (modules g) ?w1)\<rparr>"
      using result by (simp add: includeStatements_def Let_def)
    moreover have "P (fold (includeAllInBundle env) (modules g) ?w1)"
      using folded[of "includeAllInBundle env"] bundling seeded by blast
    ultimately show ?thesis using that by blast
  next
    case (Some topts)
    then obtain r where loop: "treeshakingLoop env (modules g) 1 ?w1 = Some r"
      and "g' = g\<lparr>world := fold (warnUnusedImports env) (externalModules g) (fst r)\<rparr>"
      using result by (auto simp: includeStatements_def Let_def split: option.splits)
    moreover have "P (fst r)"
      by (rule treeshakingLoop_invariant[where P = P, OF passing reset loop seeded])
    ultimately show ?thesis using that by blast
  qed
  have "P (fold (warnUnusedImports env) (externalModules g) w2)"
    using folded[of "warnUnusedImports env"] swept w2 by blast
  then show ?thesis using g' by simp
qed

lemma fold_seedEntryModule_calls:
  "fold (seedEntryModule env) ms w = fold (runSeedCall env) (seedCalls env ms w) w"
  by (induction ms arbitrary: w) (simp_all add: seedEntryModule_def)

lemma seedCalls_targets: "map seedTarget (seedCalls env ms w) = ms"
  by (induction ms arbitrary: w) simp_all

lemma seedCalls_append:
  "seedCalls env (pre @ post) w =
     seedCalls env pre w @ seedCalls env post (fold (seedEntryModule env) pre w)"
  by (induction pre arbitrary: w) (simp_all add: seedEntryModule_def)

lemma seedCalls_static:
  assumes keep1: "\<And>m m' w. preserveSignature (moduleObjs (includeAllExports env m w) m') =
                    preserveSignature (moduleObjs w m')"
    and keep2: "\<And>m m' w.
        preserveSignature (moduleObjs (markModuleAndImpureDependenciesAsExecuted env m w) m') =
          preserveSignature (moduleObjs w m')"
    and same: "\<And>m. preserveSignature (moduleObjs w m) = signature m"
  shows "seedCalls env ms w =
     map (\<lambda>m. if signature m \<noteq> PreserveFalse then IncludeAllExports m
               else MarkModuleAndImpureDependenciesAsExecuted m) ms"
  using same
proof (induction ms arbitrary: w)
  case Nil
  then show ?case by simp
next
  case (Cons x xs)
  show ?case
  proof (cases "signature x \<noteq> PreserveFalse")
    case True
    have "\<And>m. preserveSignature (moduleObjs (includeAllExports env x w) m) = signature m"
      using Cons.prems keep1 by simp
    then show ?thesis using Cons.IH[of "includeAllExports env x w"] Cons.prems[of x] True by simp
  next
    case False
    have "\<And>m. preserveSignature
        (moduleObjs (markModuleAndImpureDependenciesAsExecuted env x w) m) = signature m"
      using Cons.prems keep2 by simp
    then show ?thesis
      using Cons.IH[of "markModuleAndImpureDependenciesAsExecuted env x w"] Cons.prems[of x] False
      by simp
  qed
qed

lemma includeStatements_seeded:
  "includeStatements env entries g =
     includeStatements env [] (g\<lparr>world := fold (seedEntryModule env) entries (world g)\<rparr>)"
proof (cases "treeshakingOptions g")
  case None
  then show ?thesis by (simp add: includeStatements_def Let_def)
next
  case (Some topts)
  show ?thesis
  proof (cases "treeshakingLoop env (modules g) 1 (fold (seedEntryModule env) entries (world g))")
    case None
    with Some show ?thesis by (simp add: includeStatements_def Let_def)
  next
    case (Some r)
    with \<open>treeshakingOptions g = Some topts\<close> show ?thesis
      by (simp add: includeStatements_def Let_def)
  qed
qed

lemma seedEntryModule_executed:
  assumes keeps1: "keepsExecuted (includeAllExports env)"
    and keeps2: "keepsExecuted (markModuleAndImpureDependenciesAsExecuted env)"
    and before: "isExecuted (moduleObjs w m)"
  shows "isExecuted (moduleObjs (seedEntryModule env x w) m)"
  using assms by (simp add: seedEntryModule_def keepsExecuted_def)

lemma fold_seedEntryModule_keepsExecuted:
  assumes keeps1: "keepsExecuted (includeAllExports env)"
    and keeps2: "keepsExecuted (markModuleAndImpureDependenciesAsExecuted env)"
    and before: "isExecuted (moduleObjs w m)"
  shows "isExecuted (moduleObjs (fold (seedEntryModule env) ms w) m)"
  using before
proof (induction ms arbitrary: w)
  case Nil
  then show ?case by simp
next
  case (Cons x xs)
  have "isExecuted (moduleObjs (seedEntryModule env x w) m)"
    by (rule seedEntryModule_executed[OF keeps1 keeps2 Cons.prems])
  then show ?case using Cons.IH by simp
qed

lemma fold_seedEntryModule_executed:
  assumes executed: "\<And>m w.
        isExecuted (moduleObjs (markModuleAndImpureDependenciesAsExecuted env m w) m)"
    and keeps1: "keepsExecuted (includeAllExports env)"
    and keeps2: "keepsExecuted (markModuleAndImpureDependenciesAsExecuted env)"
    and keep1: "\<And>m m' w. preserveSignature (moduleObjs (includeAllExports env m w) m') =
                    preserveSignature (moduleObjs w m')"
    and keep2: "\<And>m m' w.
        preserveSignature (moduleObjs (markModuleAndImpureDependenciesAsExecuted env m w) m') =
          preserveSignature (moduleObjs w m')"
    and entry: "m \<in> set ms"
    and signature: "preserveSignature (moduleObjs w m) = PreserveFalse"
  shows "isExecuted (moduleObjs (fold (seedEntryModule env) ms w) m)"
  using entry signature
proof (induction ms arbitrary: w)
  case Nil
  then show ?case by simp
next
  case (Cons x xs)
  let ?w1 = "seedEntryModule env x w"
  show ?case
  proof (cases "m = x")
    case True
    with Cons.prems have "?w1 = markModuleAndImpureDependenciesAsExecuted env m w"
      by (simp add: seedEntryModule_def)
    then have "isExecuted (moduleObjs ?w1 m)" using executed by simp
    then have "isExecuted (moduleObjs (fold (seedEntryModule env) xs ?w1) m)"
      by (rule fold_seedEntryModule_keepsExecuted[OF keeps1 keeps2])
    then show ?thesis by simp
  next
    case False
    with Cons.prems have "m \<in> set xs" by simp
    moreover have "preserveSignature (moduleObjs ?w1 m) = PreserveFalse"
      using Cons.prems(2) seedEntryModule_signature[where env = env] keep1 keep2 by simp
    ultimately have "isExecuted (moduleObjs (fold (seedEntryModule env) xs ?w1) m)"
      using Cons.IH[of ?w1] by blast
    then show ?thesis by simp
  qed
qed

lemma seedCalls_member:
  "c \<in> set (seedCalls env ms w) \<longleftrightarrow>
     (\<exists>pre m post. ms = pre @ m # post
        \<and> c = (if preserveSignature (moduleObjs (fold (seedEntryModule env) pre w) m) \<noteq> PreserveFalse
               then IncludeAllExports m
               else MarkModuleAndImpureDependenciesAsExecuted m))"
proof (induction ms arbitrary: w)
  case Nil
  then show ?case by simp
next
  case (Cons x xs)
  let ?head = "if preserveSignature (moduleObjs w x) \<noteq> PreserveFalse
               then IncludeAllExports x else MarkModuleAndImpureDependenciesAsExecuted x"
  have unfold: "seedCalls env (x # xs) w = ?head # seedCalls env xs (seedEntryModule env x w)"
    by (simp add: seedEntryModule_def)
  show ?case
  proof
    assume "c \<in> set (seedCalls env (x # xs) w)"
    then consider (first) "c = ?head"
      | (later) "c \<in> set (seedCalls env xs (seedEntryModule env x w))"
      unfolding unfold by auto
    then show "\<exists>pre m post. x # xs = pre @ m # post
        \<and> c = (if preserveSignature (moduleObjs (fold (seedEntryModule env) pre w) m) \<noteq> PreserveFalse
               then IncludeAllExports m
               else MarkModuleAndImpureDependenciesAsExecuted m)"
    proof cases
      case first
      then have "x # xs = [] @ x # xs
        \<and> c = (if preserveSignature (moduleObjs (fold (seedEntryModule env) [] w) x) \<noteq> PreserveFalse
               then IncludeAllExports x
               else MarkModuleAndImpureDependenciesAsExecuted x)"
        by simp
      then show ?thesis by blast
    next
      case later
      then obtain pre m post where "xs = pre @ m # post"
        and "c = (if preserveSignature
                     (moduleObjs (fold (seedEntryModule env) pre (seedEntryModule env x w)) m)
                     \<noteq> PreserveFalse
                  then IncludeAllExports m
                  else MarkModuleAndImpureDependenciesAsExecuted m)"
        using Cons.IH[of "seedEntryModule env x w"] by blast
      then have "x # xs = (x # pre) @ m # post
        \<and> c = (if preserveSignature (moduleObjs (fold (seedEntryModule env) (x # pre) w) m)
                    \<noteq> PreserveFalse
               then IncludeAllExports m
               else MarkModuleAndImpureDependenciesAsExecuted m)"
        by simp
      then show ?thesis by blast
    qed
  next
    assume "\<exists>pre m post. x # xs = pre @ m # post
        \<and> c = (if preserveSignature (moduleObjs (fold (seedEntryModule env) pre w) m) \<noteq> PreserveFalse
               then IncludeAllExports m
               else MarkModuleAndImpureDependenciesAsExecuted m)"
    then obtain pre m post where split: "x # xs = pre @ m # post"
      and c: "c = (if preserveSignature (moduleObjs (fold (seedEntryModule env) pre w) m)
                       \<noteq> PreserveFalse
                   then IncludeAllExports m
                   else MarkModuleAndImpureDependenciesAsExecuted m)"
      by blast
    have "seedCalls env (pre @ m # post) w =
        seedCalls env pre w @ seedCalls env (m # post) (fold (seedEntryModule env) pre w)"
      by (rule seedCalls_append)
    then have "c \<in> set (seedCalls env (pre @ m # post) w)"
      using c by simp
    then show "c \<in> set (seedCalls env (x # xs) w)"
      using split by simp
  qed
qed

text \<open>
  Claim C2. \<^verbatim>\<open>includeStatements\<close> starts by seeding from the entry modules, and what follows
  runs in the world that the seeding leaves. The seeding makes one call for each entry module, in
  order: \<^verbatim>\<open>includeAllExports\<close> when the \<^verbatim>\<open>preserveSignature\<close> of the module is not \<^verbatim>\<open>false\<close>
  (the spec's \<open>none\<close>) as the loop reaches it, and \<^verbatim>\<open>markModuleAndImpureDependenciesAsExecuted\<close>
  otherwise, so that \<^verbatim>\<open>includeAllExports\<close> is never called on an entry module that does not
  preserve its signature. The two helpers are outside these sources. Let \<^verbatim>\<open>includeAllExports\<close>
  mark the exports of its module as included, let the other helper mark its module as executed
  and leave the included set as it is, let neither touch a \<^verbatim>\<open>preserveSignature\<close>, and let no
  method remove from the included set or unmark an executed module. Then after the seeding, and
  still when \<^verbatim>\<open>includeStatements\<close> returns, the exports of every entry module that preserves
  its signature are included and every entry module that does not is marked as executed; and when
  no entry module preserves its signature the seeding includes nothing.
\<close>

theorem entry_modules_seed_inclusion:
  assumes exports: "\<And>m w. exportsOf m \<subseteq> marked (includeAllExports env m w)"
    and inert: "\<And>m w. marked (markModuleAndImpureDependenciesAsExecuted env m w) = marked w"
    and executed: "\<And>m w.
        isExecuted (moduleObjs (markModuleAndImpureDependenciesAsExecuted env m w) m)"
    and keep1: "\<And>m m' w. preserveSignature (moduleObjs (includeAllExports env m w) m') =
                    preserveSignature (moduleObjs w m')"
    and keep2: "\<And>m m' w.
        preserveSignature (moduleObjs (markModuleAndImpureDependenciesAsExecuted env m w) m') =
          preserveSignature (moduleObjs w m')"
    and adds: "onlyAdds marked (includeAllExports env)" "onlyAdds marked (module_include env)"
      "onlyAdds marked (includeAllInBundle env)" "onlyAdds marked (warnUnusedImports env)"
    and stays: "keepsExecuted (includeAllExports env)"
      "keepsExecuted (markModuleAndImpureDependenciesAsExecuted env)"
      "keepsExecuted (module_include env)" "keepsExecuted (includeAllInBundle env)"
      "keepsExecuted (warnUnusedImports env)"
    and reset: "\<And>w. marked (w\<lparr>needsTreeshakingPass := False\<rparr>) = marked w"
  shows "includeStatements env entries g =
           includeStatements env []
             (g\<lparr>world := fold (runSeedCall env) (seedCalls env entries (world g)) (world g)\<rparr>)
     \<and> fold (seedEntryModule env) entries (world g) =
         fold (runSeedCall env) (seedCalls env entries (world g)) (world g)
     \<and> (\<forall>w. map seedTarget (seedCalls env entries w) = entries)
     \<and> (\<forall>w m. IncludeAllExports m \<in> set (seedCalls env entries w) \<longleftrightarrow>
           (\<exists>pre post. entries = pre @ m # post
              \<and> preserveSignature (moduleObjs (fold (seedEntryModule env) pre w) m) \<noteq> PreserveFalse))
     \<and> (\<forall>w m. MarkModuleAndImpureDependenciesAsExecuted m \<in> set (seedCalls env entries w) \<longleftrightarrow>
           (\<exists>pre post. entries = pre @ m # post
              \<and> preserveSignature (moduleObjs (fold (seedEntryModule env) pre w) m) = PreserveFalse))
     \<and> seedCalls env entries (world g) =
         map (\<lambda>m. if preserveSignature (moduleObjs (world g) m) \<noteq> PreserveFalse
                   then IncludeAllExports m
                   else MarkModuleAndImpureDependenciesAsExecuted m) entries
     \<and> (\<forall>m \<in> set entries.
           if preserveSignature (moduleObjs (world g) m) \<noteq> PreserveFalse
           then exportsOf m \<subseteq> marked (fold (seedEntryModule env) entries (world g))
           else isExecuted (moduleObjs (fold (seedEntryModule env) entries (world g)) m))
     \<and> (\<forall>g'. includeStatements env entries g = Some g' \<longrightarrow>
           (\<forall>m \<in> set entries.
              if preserveSignature (moduleObjs (world g) m) \<noteq> PreserveFalse
              then exportsOf m \<subseteq> marked (world g')
              else isExecuted (moduleObjs (world g') m)))
     \<and> ((\<forall>m \<in> set entries. preserveSignature (moduleObjs (world g) m) = PreserveFalse) \<longrightarrow>
           marked (fold (seedEntryModule env) entries (world g)) = marked (world g))"
proof -
  let ?seeded = "fold (seedEntryModule env) entries (world g)"
  let ?strict = "\<lambda>m. preserveSignature (moduleObjs (world g) m) \<noteq> PreserveFalse"
  let ?P = "\<lambda>w. \<forall>m \<in> set entries.
      if ?strict m then exportsOf m \<subseteq> marked w else isExecuted (moduleObjs w m)"
  have grows: "\<And>m w. marked w \<subseteq> marked (includeAllExports env m w)"
    using adds(1) by (simp add: onlyAdds_def)
  have trace: "?seeded = fold (runSeedCall env) (seedCalls env entries (world g)) (world g)"
    by (rule fold_seedEntryModule_calls)
  have phase: "includeStatements env entries g =
      includeStatements env []
        (g\<lparr>world := fold (runSeedCall env) (seedCalls env entries (world g)) (world g)\<rparr>)"
    using includeStatements_seeded[of env entries g] trace by simp
  have targets: "\<forall>w. map seedTarget (seedCalls env entries w) = entries"
    by (simp add: seedCalls_targets)
  have included: "\<forall>w m. IncludeAllExports m \<in> set (seedCalls env entries w) \<longleftrightarrow>
           (\<exists>pre post. entries = pre @ m # post
              \<and> preserveSignature (moduleObjs (fold (seedEntryModule env) pre w) m) \<noteq> PreserveFalse)"
    unfolding seedCalls_member by auto
  have marks: "\<forall>w m. MarkModuleAndImpureDependenciesAsExecuted m \<in> set (seedCalls env entries w) \<longleftrightarrow>
           (\<exists>pre post. entries = pre @ m # post
              \<and> preserveSignature (moduleObjs (fold (seedEntryModule env) pre w) m) = PreserveFalse)"
    unfolding seedCalls_member by auto
  have static: "seedCalls env entries (world g) =
         map (\<lambda>m. if ?strict m then IncludeAllExports m
                   else MarkModuleAndImpureDependenciesAsExecuted m) entries"
    by (rule seedCalls_static[where signature = "\<lambda>m. preserveSignature (moduleObjs (world g) m)",
          OF keep1 keep2]) simp
  have seeded: "?P ?seeded"
  proof
    fix m assume m: "m \<in> set entries"
    show "if ?strict m then exportsOf m \<subseteq> marked ?seeded
          else isExecuted (moduleObjs ?seeded m)"
    proof (cases "?strict m")
      case True
      then have "exportsOf m \<subseteq> marked ?seeded"
        using fold_seedEntryModule_exports[where exportsOf = exportsOf and marked = marked
            and env = env and ms = entries and w = "world g" and m = m]
          exports grows inert keep1 keep2 m
        by blast
      with True show ?thesis by simp
    next
      case False
      then have "isExecuted (moduleObjs ?seeded m)"
        using fold_seedEntryModule_executed[where env = env and ms = entries and w = "world g"
            and m = m] executed stays(1,2) keep1 keep2 m
        by blast
      with False show ?thesis by simp
    qed
  qed
  have returned: "\<forall>g'. includeStatements env entries g = Some g' \<longrightarrow> ?P (world g')"
  proof (intro allI impI)
    fix g' assume result: "includeStatements env entries g = Some g'"
    have lasting: "?P (f x w)" if "onlyAdds marked f" "keepsExecuted f" "?P w"
      for f :: "ref \<Rightarrow> world \<Rightarrow> world" and x w
    proof
      fix m assume m: "m \<in> set entries"
      have "marked w \<subseteq> marked (f x w)"
        using that(1) by (simp add: onlyAdds_def)
      moreover have "isExecuted (moduleObjs w m) \<longrightarrow> isExecuted (moduleObjs (f x w) m)"
        using that(2) by (simp add: keepsExecuted_def)
      ultimately show "if ?strict m then exportsOf m \<subseteq> marked (f x w)
          else isExecuted (moduleObjs (f x w) m)"
        using that(3) m by (auto split: if_splits)
    qed
    have lowered: "?P (w\<lparr>needsTreeshakingPass := False\<rparr>)" if "?P w" for w
      using that by (simp add: reset)
    show "?P (world g')"
    proof (rule includeStatements_invariant[where P = ?P and env = env and entries = entries
          and g = g and g' = g'])
      show "\<And>m w. ?P w \<Longrightarrow> ?P (module_include env m w)"
        using lasting[OF adds(2) stays(3)] by blast
      show "\<And>w. ?P w \<Longrightarrow> ?P (w\<lparr>needsTreeshakingPass := False\<rparr>)"
        using lowered by blast
      show "\<And>m w. ?P w \<Longrightarrow> ?P (includeAllInBundle env m w)"
        using lasting[OF adds(3) stays(4)] by blast
      show "\<And>e w. ?P w \<Longrightarrow> ?P (warnUnusedImports env e w)"
        using lasting[OF adds(4) stays(5)] by blast
      show "includeStatements env entries g = Some g'" by (rule result)
      show "?P ?seeded" by (rule seeded)
    qed
  qed
  have none: "(\<forall>m \<in> set entries. preserveSignature (moduleObjs (world g) m) = PreserveFalse) \<longrightarrow>
           marked ?seeded = marked (world g)"
    using fold_seedEntryModule_none[where marked = marked and env = env and ms = entries
        and w = "world g"] inert keep2 by blast
  show ?thesis
    apply (insert phase trace targets included marks static seeded returned none)
    apply (intro conjI; assumption)
    done
qed

theorem entry_modules_seed_inclusion_witness:
  "preserveSignature (moduleObjs (world dormantGraph) 0) \<noteq> PreserveFalse
   \<and> preserveSignature (moduleObjs (world dormantGraph) 1) = PreserveFalse
   \<and> \<not> isExecuted (moduleObjs (world dormantGraph) 1)
   \<and> exampleExports 0 = {0}
   \<and> \<not> exampleExports 0 \<subseteq> exampleMarked (world dormantGraph)
   \<and> seedCalls exampleEnv [0, 1] (world dormantGraph) =
       [IncludeAllExports 0, MarkModuleAndImpureDependenciesAsExecuted 1]
   \<and> (\<exists>g'. includeStatements exampleEnv [0, 1] dormantGraph = Some g'
         \<and> exampleExports 0 \<subseteq> exampleMarked (world g')
         \<and> isExecuted (moduleObjs (world g') 1))"
proof -
  have exports: "\<And>m w. exampleExports m \<subseteq> exampleMarked (includeAllExports exampleEnv m w)"
    by (auto simp: exampleExports_def exampleMarked_def exampleEnv_def)
  have inert: "\<And>m w.
      exampleMarked (markModuleAndImpureDependenciesAsExecuted exampleEnv m w) = exampleMarked w"
    by (auto simp: exampleMarked_def exampleEnv_def)
  have executed: "\<And>m w.
      isExecuted (moduleObjs (markModuleAndImpureDependenciesAsExecuted exampleEnv m w) m)"
    by (simp add: exampleEnv_def)
  have keep1: "\<And>m m' w. preserveSignature (moduleObjs (includeAllExports exampleEnv m w) m') =
      preserveSignature (moduleObjs w m')"
    by (simp add: exampleEnv_def)
  have keep2: "\<And>m m' w.
      preserveSignature (moduleObjs (markModuleAndImpureDependenciesAsExecuted exampleEnv m w) m') =
        preserveSignature (moduleObjs w m')"
    by (simp add: exampleEnv_def)
  have adds: "onlyAdds exampleMarked (includeAllExports exampleEnv)"
    "onlyAdds exampleMarked (module_include exampleEnv)"
    "onlyAdds exampleMarked (includeAllInBundle exampleEnv)"
    "onlyAdds exampleMarked (warnUnusedImports exampleEnv)"
    by (auto simp: onlyAdds_def exampleMarked_def exampleEnv_def)
  have stays: "keepsExecuted (includeAllExports exampleEnv)"
    "keepsExecuted (markModuleAndImpureDependenciesAsExecuted exampleEnv)"
    "keepsExecuted (module_include exampleEnv)"
    "keepsExecuted (includeAllInBundle exampleEnv)"
    "keepsExecuted (warnUnusedImports exampleEnv)"
    by (auto simp: keepsExecuted_def exampleEnv_def)
  have reset: "\<And>w. exampleMarked (w\<lparr>needsTreeshakingPass := False\<rparr>) = exampleMarked w"
    by (simp add: exampleMarked_def)
  have strict: "preserveSignature (moduleObjs (world dormantGraph) 0) \<noteq> PreserveFalse"
    by (simp add: dormantGraph_def exampleWorld_def moduleA_def)
  have none: "preserveSignature (moduleObjs (world dormantGraph) 1) = PreserveFalse"
    by (simp add: dormantGraph_def dormantModuleB_def moduleB_def)
  have dormant: "\<not> isExecuted (moduleObjs (world dormantGraph) 1)"
    by (simp add: dormantGraph_def dormantModuleB_def)
  have own: "exampleExports 0 = {0}"
    by (auto simp: exampleExports_def)
  have before: "\<not> exampleExports 0 \<subseteq> exampleMarked (world dormantGraph)"
    by (simp add: own exampleMarked_def dormantGraph_def exampleWorld_def moduleA_def)
  note main = entry_modules_seed_inclusion[where exportsOf = exampleExports
      and marked = exampleMarked and env = exampleEnv and entries = "[0, 1]" and g = dormantGraph,
      OF exports inert executed keep1 keep2 adds stays reset]
  have calls: "seedCalls exampleEnv [0, 1] (world dormantGraph) =
      [IncludeAllExports 0, MarkModuleAndImpureDependenciesAsExecuted 1]"
    using main strict none by simp
  have fin: "finite {0, 1 :: nat}" by simp
  have dom: "\<And>w. exampleMarked w \<subseteq> {0, 1}"
    by (auto simp: exampleMarked_def)
  have mono: "\<And>m w. exampleMarked w \<subseteq> exampleMarked (module_include exampleEnv m w)"
    using adds(2) by (simp add: onlyAdds_def)
  have flag: "\<And>m w. needsTreeshakingPass (module_include exampleEnv m w) \<Longrightarrow>
      needsTreeshakingPass w \<or> exampleMarked w \<subset> exampleMarked (module_include exampleEnv m w)"
    by (auto simp: exampleMarked_def exampleEnv_def split: if_splits)
  obtain r where "treeshakingLoop exampleEnv (modules dormantGraph) 1
      (fold (seedEntryModule exampleEnv) [0, 1] (world dormantGraph)) = Some r"
    using treeshakingLoop_terminates[where marked = exampleMarked and env = exampleEnv
        and U = "{0, 1}" and ms = "modules dormantGraph" and counter = 1
        and w = "fold (seedEntryModule exampleEnv) [0, 1] (world dormantGraph)"]
      fin dom mono flag reset
    by blast
  moreover have "treeshakingOptions dormantGraph \<noteq> None"
    by (simp add: dormantGraph_def exampleGraph_def normalizeTreeshake_def)
  ultimately obtain g' where returns: "includeStatements exampleEnv [0, 1] dormantGraph = Some g'"
    by (auto simp: includeStatements_def Let_def)
  have "\<forall>m \<in> set [0, 1].
      if preserveSignature (moduleObjs (world dormantGraph) m) \<noteq> PreserveFalse
      then exampleExports m \<subseteq> exampleMarked (world g')
      else isExecuted (moduleObjs (world g') m)"
    using main returns by blast
  then have "exampleExports 0 \<subseteq> exampleMarked (world g') \<and> isExecuted (moduleObjs (world g') 1)"
    using strict none by simp
  with strict none dormant own before calls returns show ?thesis by blast
qed

subsection \<open>\<^verbatim>\<open>generateChunks\<close>\<close>

lemma linkChunks_fields:
  assumes "\<And>c w. orderedModules (fst (chunk_link env c w)) = orderedModules c"
    and "\<And>c w. entryModules (fst (chunk_link env c w)) = entryModules c"
  shows "map orderedModules (fst (linkChunks env cs w)) = map orderedModules cs
       \<and> map entryModules (fst (linkChunks env cs w)) = map entryModules cs"
proof (induction cs arbitrary: w)
  case Nil
  then show ?case by simp
next
  case (Cons c cs)
  obtain c' w1 where link: "chunk_link env c w = (c', w1)" by (cases "chunk_link env c w")
  obtain cs' w2 where rest: "linkChunks env cs w1 = (cs', w2)" by (cases "linkChunks env cs w1")
  have "orderedModules c' = orderedModules c" "entryModules c' = entryModules c"
    using assms(1)[of c w] assms(2)[of c w] link by simp_all
  moreover have "map orderedModules cs' = map orderedModules cs"
      "map entryModules cs' = map entryModules cs"
    using Cons.IH[of w1] rest by simp_all
  ultimately show ?case using link rest by simp
qed

lemma facadesOfChunks_fields:
  assumes "\<And>c w. orderedModules (snd (fst (generateFacades env c w))) = orderedModules c"
    and "\<And>c w. entryModules (snd (fst (generateFacades env c w))) = entryModules c"
  shows "map orderedModules (snd (fst (facadesOfChunks env cs w))) = map orderedModules cs
       \<and> map entryModules (snd (fst (facadesOfChunks env cs w))) = map entryModules cs"
proof (induction cs arbitrary: w)
  case Nil
  then show ?case by simp
next
  case (Cons c cs)
  obtain fs c' w1 where gen: "generateFacades env c w = ((fs, c'), w1)"
    by (cases "generateFacades env c w") auto
  obtain fs' cs' w2 where rest: "facadesOfChunks env cs w1 = ((fs', cs'), w2)"
    by (cases "facadesOfChunks env cs w1") auto
  have "orderedModules c' = orderedModules c" "entryModules c' = entryModules c"
    using assms(1)[of c w] assms(2)[of c w] gen by simp_all
  moreover have "map orderedModules cs' = map orderedModules cs"
      "map entryModules cs' = map entryModules cs"
    using Cons.IH[of w1] rest by simp_all
  ultimately show ?case using gen rest by simp
qed

lemma chunksPerModule_fields:
  assumes ordered: "\<And>ms w. orderedModules (fst (newChunk env ms w)) = ms"
    and keeps: "\<And>ms w m. ownChunk (snd (newChunk env ms w)) m = ownChunk w m"
  shows "map entryModules (fst (chunksPerModule env ms w)) = map (\<lambda>m. [m]) (filter (ownChunk w) ms)
       \<and> map orderedModules (fst (chunksPerModule env ms w)) = map (\<lambda>m. [m]) (filter (ownChunk w) ms)"
proof (induction ms arbitrary: w)
  case Nil
  then show ?case by simp
next
  case (Cons m ms)
  show ?case
  proof (cases "ownChunk w m")
    case False
    then have "chunksPerModule env (m # ms) w = chunksPerModule env ms w"
      by (simp add: ownChunk_def)
    with False Cons.IH[of w] show ?thesis by simp
  next
    case True
    obtain c w1 where new: "newChunk env [m] w = (c, w1)" by (cases "newChunk env [m] w")
    obtain cs w2 where rest: "chunksPerModule env ms w1 = (cs, w2)"
      by (cases "chunksPerModule env ms w1")
    have unfold: "chunksPerModule env (m # ms) w = (c\<lparr>entryModules := [m]\<rparr> # cs, w2)"
      using True new rest by (simp add: ownChunk_def)
    have same: "ownChunk w1 = ownChunk w"
      using keeps[of "[m]" w] new by (simp add: fun_eq_iff)
    have c: "orderedModules c = [m]"
      using ordered[of "[m]" w] new by simp
    from Cons.IH[of w1] rest same
    have "map entryModules cs = map (\<lambda>m. [m]) (filter (ownChunk w) ms)"
      "map orderedModules cs = map (\<lambda>m. [m]) (filter (ownChunk w) ms)"
      by simp_all
    with unfold True c show ?thesis by simp
  qed
qed

lemma length_filter_eq_distinct:
  "distinct xs \<Longrightarrow> x \<in> set xs \<Longrightarrow> length (filter (\<lambda>y. y = x) xs) = 1"
proof (induction xs)
  case Nil
  then show ?case by simp
next
  case (Cons a xs)
  show ?case
  proof (cases "a = x")
    case True
    with Cons.prems have "x \<notin> set xs" by simp
    then have "filter (\<lambda>y. y = x) xs = []" by (auto simp: filter_empty_conv)
    with True show ?thesis by simp
  next
    case False
    with Cons show ?thesis by simp
  qed
qed

lemma chunks_with_entry:
  assumes "map entryModules chunks = map (\<lambda>m. [m]) ms"
  shows "length (filter (\<lambda>c. entryModules c = [m]) chunks) = length (filter (\<lambda>y. y = m) ms)"
proof -
  have "length (filter (\<lambda>c. entryModules c = [m]) chunks) =
      length (filter (\<lambda>e. e = [m]) (map entryModules chunks))"
    by (simp add: filter_map comp_def)
  also have "\<dots> = length (filter (\<lambda>e. e = [m]) (map (\<lambda>m. [m]) ms))"
    using assms by simp
  also have "\<dots> = length (filter (\<lambda>y. y = m) ms)"
    by (simp add: filter_map comp_def)
  finally show ?thesis .
qed

text \<open>
  Claim C3. With \<^verbatim>\<open>inlineDynamicImports\<close> set and \<^verbatim>\<open>preserveModules\<close> not set,
  \<^verbatim>\<open>generateChunks\<close> creates one chunk, made of all of \<^verbatim>\<open>modules\<close> in execution order, so
  of every included module; what follows it in the result are the facades. The entry modules and
  the manual chunk groups have no part in it: any other gives the same result. The Chunk
  constructor is taken to store the modules it is given, sorting to permute them, and
  \<^verbatim>\<open>link\<close> and \<^verbatim>\<open>generateFacades\<close> to leave the modules of a chunk as they are.
\<close>

theorem inline_dynamic_imports_single_chunk:
  assumes separate: "\<not> preserveModules g"
    and ordered: "\<And>ms w. orderedModules (fst (newChunk env ms w)) = ms"
    and linkOrdered: "\<And>c w. orderedModules (fst (chunk_link env c w)) = orderedModules c"
    and facadeOrdered:
      "\<And>c w. orderedModules (snd (fst (generateFacades env c w))) = orderedModules c"
    and permutes: "\<And>w ms. set (sortByExecutionOrder env w ms) = set ms"
  shows "\<exists>chunk facades g'.
       chunksAndFacades env entries byAlias True g = (([chunk], facades), g')
     \<and> generateChunks env entries byAlias True g = (chunk # facades, g')
     \<and> orderedModules chunk = sortByExecutionOrder env (world g) (modules g)
     \<and> modules g' = sortByExecutionOrder env (world g) (modules g)
     \<and> set (orderedModules chunk) = set (modules g)
     \<and> (\<forall>m \<in> set (modules g). isIncluded (moduleObjs (world g) m) \<longrightarrow>
           m \<in> set (orderedModules chunk))
     \<and> (\<forall>entries' byAlias'.
           generateChunks env entries' byAlias' True g = (chunk # facades, g'))"
proof -
  let ?sorted = "sortByExecutionOrder env (world g) (modules g)"
  obtain c0 w0 where new: "newChunk env ?sorted (world g) = (c0, w0)"
    by (cases "newChunk env ?sorted (world g)")
  obtain c1 w1 where link: "chunk_link env c0 w0 = (c1, w1)"
    by (cases "chunk_link env c0 w0")
  obtain facades chunk w2 where gen: "generateFacades env c1 w1 = ((facades, chunk), w2)"
    by (cases "generateFacades env c1 w1") auto
  let ?g' = "g\<lparr>modules := ?sorted, world := w2\<rparr>"
  have both: "\<And>entries' byAlias'.
      chunksAndFacades env entries' byAlias' True g = (([chunk], facades), ?g')"
    using separate new link gen by (simp add: chunksAndFacades_def Let_def)
  then have all: "\<And>entries' byAlias'.
      generateChunks env entries' byAlias' True g = (chunk # facades, ?g')"
    by (simp add: generateChunks_def)
  have "orderedModules c0 = ?sorted"
    using ordered[of ?sorted "world g"] new by simp
  moreover have "orderedModules c1 = orderedModules c0"
    using linkOrdered[of c0 w0] link by simp
  moreover have "orderedModules chunk = orderedModules c1"
    using facadeOrdered[of c1 w1] gen by simp
  ultimately have members: "orderedModules chunk = ?sorted" by simp
  then have same: "set (orderedModules chunk) = set (modules g)"
    using permutes by simp
  have "modules ?g' = ?sorted" by simp
  with both[of entries byAlias] all members same show ?thesis by blast
qed

theorem inline_dynamic_imports_single_chunk_witness:
  "\<not> preserveModules exampleGraph
   \<and> (\<exists>chunk facades g'.
         generateChunks exampleEnv [0] [(''vendor'', [1])] True exampleGraph = (chunk # facades, g')
       \<and> orderedModules chunk = [0, 1]
       \<and> generateChunks exampleEnv [0] [] True exampleGraph = (chunk # facades, g'))"
proof -
  have separate: "\<not> preserveModules exampleGraph"
    by (simp add: exampleGraph_def)
  have ordered: "\<And>ms w. orderedModules (fst (newChunk exampleEnv ms w)) = ms"
    by (simp add: exampleEnv_def)
  have linkOrdered: "\<And>c w. orderedModules (fst (chunk_link exampleEnv c w)) = orderedModules c"
    by (simp add: exampleEnv_def)
  have facadeOrdered:
    "\<And>c w. orderedModules (snd (fst (generateFacades exampleEnv c w))) = orderedModules c"
    by (simp add: exampleEnv_def)
  have permutes: "\<And>w ms. set (sortByExecutionOrder exampleEnv w ms) = set ms"
    by (simp add: exampleEnv_def)
  have inOrder: "sortByExecutionOrder exampleEnv (world exampleGraph) (modules exampleGraph) = [0, 1]"
    by (simp add: exampleEnv_def exampleGraph_def)
  from inline_dynamic_imports_single_chunk[where env = exampleEnv and g = exampleGraph
      and entries = "[0]" and byAlias = "[(''vendor'', [1])]",
      OF separate ordered linkOrdered facadeOrdered permutes]
  have "\<exists>chunk facades g'.
         generateChunks exampleEnv [0] [(''vendor'', [1])] True exampleGraph = (chunk # facades, g')
       \<and> orderedModules chunk = [0, 1]
       \<and> generateChunks exampleEnv [0] [] True exampleGraph = (chunk # facades, g')"
    unfolding inOrder by metis
  with separate show ?thesis by blast
qed

text \<open>
  Claim C4, amended. In preserve-modules mode \<^verbatim>\<open>generateChunks\<close> creates one chunk for each
  module of \<^verbatim>\<open>modules\<close> that is included, or is an entry point, or has an included dynamic
  importer, in the order of \<^verbatim>\<open>modules\<close>, and for no other; the chunk of a module holds that
  module alone and has the singleton of that module as its \<^verbatim>\<open>entryModules\<close>. So every
  included module has exactly one chunk. The Chunk constructor is taken to store the modules it
  is given and to leave the three tests on modules as they are, and \<^verbatim>\<open>link\<close> and
  \<^verbatim>\<open>generateFacades\<close> to leave the two lists of a chunk as they are.
\<close>

theorem preserve_modules_chunk_per_kept_module:
  assumes preserve: "preserveModules g"
    and ordered: "\<And>ms w. orderedModules (fst (newChunk env ms w)) = ms"
    and keeps: "\<And>ms w m. ownChunk (snd (newChunk env ms w)) m = ownChunk w m"
    and linkOrdered: "\<And>c w. orderedModules (fst (chunk_link env c w)) = orderedModules c"
    and linkEntries: "\<And>c w. entryModules (fst (chunk_link env c w)) = entryModules c"
    and facadeOrdered:
      "\<And>c w. orderedModules (snd (fst (generateFacades env c w))) = orderedModules c"
    and facadeEntries:
      "\<And>c w. entryModules (snd (fst (generateFacades env c w))) = entryModules c"
  shows "\<exists>chunks facades g'.
       chunksAndFacades env entries byAlias inlineDynamicImports g = ((chunks, facades), g')
     \<and> generateChunks env entries byAlias inlineDynamicImports g = (chunks @ facades, g')
     \<and> map entryModules chunks = map (\<lambda>m. [m]) (filter (ownChunk (world g)) (modules g))
     \<and> map orderedModules chunks = map (\<lambda>m. [m]) (filter (ownChunk (world g)) (modules g))
     \<and> (distinct (modules g) \<longrightarrow>
          (\<forall>m \<in> set (modules g). isIncluded (moduleObjs (world g) m) \<longrightarrow>
             length (filter (\<lambda>c. entryModules c = [m]) chunks) = 1))"
proof -
  let ?kept = "filter (ownChunk (world g)) (modules g)"
  obtain created w0 where created: "chunksPerModule env (modules g) (world g) = (created, w0)"
    by (cases "chunksPerModule env (modules g) (world g)")
  obtain linked w1 where linked: "linkChunks env created w0 = (linked, w1)"
    by (cases "linkChunks env created w0")
  obtain facades chunks w2 where final: "facadesOfChunks env linked w1 = ((facades, chunks), w2)"
    by (cases "facadesOfChunks env linked w1") auto
  have both: "chunksAndFacades env entries byAlias inlineDynamicImports g =
      ((chunks, facades), g\<lparr>world := w2\<rparr>)"
    using preserve created linked final by (simp add: chunksAndFacades_def Let_def)
  then have all: "generateChunks env entries byAlias inlineDynamicImports g =
      (chunks @ facades, g\<lparr>world := w2\<rparr>)"
    by (simp add: generateChunks_def)
  have c0: "map entryModules created = map (\<lambda>m. [m]) ?kept
      \<and> map orderedModules created = map (\<lambda>m. [m]) ?kept"
    using chunksPerModule_fields[where env = env and ms = "modules g" and w = "world g"]
      ordered keeps created by simp
  have c1: "map orderedModules linked = map orderedModules created
      \<and> map entryModules linked = map entryModules created"
    using linkChunks_fields[where env = env and cs = created and w = w0]
      linkOrdered linkEntries linked by simp
  have c2: "map orderedModules chunks = map orderedModules linked
      \<and> map entryModules chunks = map entryModules linked"
    using facadesOfChunks_fields[where env = env and cs = linked and w = w1]
      facadeOrdered facadeEntries final by simp
  have entries: "map entryModules chunks = map (\<lambda>m. [m]) ?kept"
    using c0 c1 c2 by simp
  have members: "map orderedModules chunks = map (\<lambda>m. [m]) ?kept"
    using c0 c1 c2 by simp
  have once: "distinct (modules g) \<longrightarrow>
          (\<forall>m \<in> set (modules g). isIncluded (moduleObjs (world g) m) \<longrightarrow>
             length (filter (\<lambda>c. entryModules c = [m]) chunks) = 1)"
  proof (intro impI ballI)
    fix m
    assume d: "distinct (modules g)" and m: "m \<in> set (modules g)"
      and inc: "isIncluded (moduleObjs (world g) m)"
    have "m \<in> set ?kept" using m inc by (simp add: ownChunk_def)
    moreover have "distinct ?kept" using d by simp
    ultimately have "length (filter (\<lambda>y. y = m) ?kept) = 1"
      by (rule length_filter_eq_distinct[rotated])
    then show "length (filter (\<lambda>c. entryModules c = [m]) chunks) = 1"
      using chunks_with_entry[OF entries] by simp
  qed
  from both all entries members once show ?thesis by blast
qed

theorem preserve_modules_chunk_per_kept_module_witness:
  "preserveModules preserveModulesGraph
   \<and> (\<exists>chunks facades g'.
         chunksAndFacades exampleEnv [0] [] False preserveModulesGraph = ((chunks, facades), g')
       \<and> map entryModules chunks = [[0]] \<and> map orderedModules chunks = [[0]])"
proof -
  have preserve: "preserveModules preserveModulesGraph"
    by (simp add: preserveModulesGraph_def)
  have ordered: "\<And>ms w. orderedModules (fst (newChunk exampleEnv ms w)) = ms"
    by (simp add: exampleEnv_def)
  have keeps: "\<And>ms w m. ownChunk (snd (newChunk exampleEnv ms w)) m = ownChunk w m"
    by (simp add: exampleEnv_def)
  have linkOrdered: "\<And>c w. orderedModules (fst (chunk_link exampleEnv c w)) = orderedModules c"
    by (simp add: exampleEnv_def)
  have linkEntries: "\<And>c w. entryModules (fst (chunk_link exampleEnv c w)) = entryModules c"
    by (simp add: exampleEnv_def)
  have facadeOrdered:
    "\<And>c w. orderedModules (snd (fst (generateFacades exampleEnv c w))) = orderedModules c"
    by (simp add: exampleEnv_def)
  have facadeEntries:
    "\<And>c w. entryModules (snd (fst (generateFacades exampleEnv c w))) = entryModules c"
    by (simp add: exampleEnv_def)
  have kept: "filter (ownChunk (world preserveModulesGraph)) (modules preserveModulesGraph) = [0]"
    by (simp add: preserveModulesGraph_def exampleGraph_def exampleWorld_def ownChunk_def
        moduleA_def moduleB_def)
  from preserve_modules_chunk_per_kept_module[where env = exampleEnv and g = preserveModulesGraph
      and entries = "[0]" and byAlias = "[]" and inlineDynamicImports = False,
      OF preserve ordered keeps linkOrdered linkEntries facadeOrdered facadeEntries]
  have "\<exists>chunks facades g'.
         chunksAndFacades exampleEnv [0] [] False preserveModulesGraph = ((chunks, facades), g')
       \<and> map entryModules chunks = [[0]] \<and> map orderedModules chunks = [[0]]"
    unfolding kept by auto
  with preserve show ?thesis by blast
qed

text \<open>
  Claim C4 as stated fails: here no module is included, and yet the entry module gets its chunk.
\<close>

theorem chunk_for_module_not_included:
  "preserveModules preserveModulesGraph
   \<and> modules preserveModulesGraph = [0, 1]
   \<and> \<not> isIncluded (moduleObjs (world preserveModulesGraph) 0)
   \<and> \<not> isIncluded (moduleObjs (world preserveModulesGraph) 1)
   \<and> isEntryPoint (moduleObjs (world preserveModulesGraph) 0)
   \<and> map entryModules (fst (generateChunks exampleEnv [0] [] False preserveModulesGraph)) = [[0]]"
  by (simp add: preserveModulesGraph_def exampleGraph_def exampleWorld_def moduleA_def moduleB_def
      generateChunks_def chunksAndFacades_def exampleEnv_def Let_def)

end
